theory Spec2Isabelle
  imports Complex_Main "HOL-Library.Sublist" "HOL-Library.Log_Nat" "HOL-Library.AList"
begin

section \<open>The Python values the server computes with\<close>

text \<open>
  The server is one Python file, \<^verbatim>\<open>run_server.py\<close>. Its handlers read form fields
  (strings), convert them with the built-ins \<^verbatim>\<open>int\<close>, \<^verbatim>\<open>float\<close>, \<^verbatim>\<open>str.strip\<close> and
  \<^verbatim>\<open>datetime.strptime\<close>, compute with Python floats and write rows to SQLite. This first
  section models those built-ins. Strings are byte strings and the built-ins are modelled
  on ASCII text: a byte above 127 is neither a digit, nor white space, nor a letter.

  An exception that no handler catches ends the request: the transaction is never
  committed and no response is written. The model returns such an exception as a value.
\<close>

datatype py_error = ValueError | TypeError | OverflowError | IntegrityError

subsection \<open>Strings\<close>

definition py_isspace :: "char \<Rightarrow> bool" where
  "py_isspace c = ((of_char c :: nat) \<in> {9, 10, 11, 12, 13, 28, 29, 30, 31, 32})"

definition py_strip :: "string \<Rightarrow> string" where
  "py_strip s = rev (dropWhile py_isspace (rev (dropWhile py_isspace s)))"

definition is_digit :: "char \<Rightarrow> bool" where
  "is_digit c = (48 \<le> (of_char c :: nat) \<and> (of_char c :: nat) \<le> 57)"

definition digit_val :: "char \<Rightarrow> int" where
  "digit_val c = of_char c - 48"

definition py_upper_char :: "char \<Rightarrow> char" where
  "py_upper_char c =
     (if 97 \<le> (of_char c :: nat) \<and> (of_char c :: nat) \<le> 122
      then char_of ((of_char c :: nat) - 32) else c)"

definition py_lower_char :: "char \<Rightarrow> char" where
  "py_lower_char c =
     (if 65 \<le> (of_char c :: nat) \<and> (of_char c :: nat) \<le> 90
      then char_of ((of_char c :: nat) + 32) else c)"

definition py_upper :: "string \<Rightarrow> string" where
  "py_upper s = map py_upper_char s"

definition py_lower :: "string \<Rightarrow> string" where
  "py_lower s = map py_lower_char s"

text \<open>\<^verbatim>\<open>needle in hay\<close> on strings: \<open>needle\<close> occurs in \<open>hay\<close> as a contiguous piece.\<close>

fun py_in :: "string \<Rightarrow> string \<Rightarrow> bool" where
  "py_in needle [] = (needle = [])"
| "py_in needle (c # cs) = (prefix needle (c # cs) \<or> py_in needle cs)"

text \<open>\<^verbatim>\<open>str(n)\<close> of an integer, and the format specifications \<^verbatim>\<open>{n:03d}\<close>,
  \<^verbatim>\<open>{n:02d}\<close>, \<^verbatim>\<open>{n:04d}\<close>: the sign first, then zeros up to the width.\<close>

definition digit_char :: "nat \<Rightarrow> char" where
  "digit_char d = char_of (48 + d)"

function str_digits :: "int \<Rightarrow> string" where
  \<comment> \<open>the decimal digits of \<open>n \<ge> 0\<close>\<close>
  "str_digits n =
     (if n < 10 then [digit_char (nat n)]
      else str_digits (n div 10) @ [digit_char (nat (n mod 10))])"
  by pat_completeness auto
termination
  by (relation "measure nat") auto

declare str_digits.simps [simp del]

definition py_str :: "int \<Rightarrow> string" where
  "py_str n = (if n < 0 then CHR ''-'' # str_digits (- n) else str_digits n)"

definition zero_pad :: "nat \<Rightarrow> string \<Rightarrow> string" where
  "zero_pad w s = replicate (w - length s) CHR ''0'' @ s"

definition fmt_0d :: "nat \<Rightarrow> int \<Rightarrow> string" where
  "fmt_0d w n =
     (if n < 0 then CHR ''-'' # zero_pad (w - 1) (str_digits (- n))
      else zero_pad w (str_digits n))"

subsection \<open>Floats\<close>

text \<open>
  A Python float is an IEEE 754 binary64 number. The finite ones are the rationals
  \<open>m * 2 ^ e\<close> with \<open>\<bar>m\<bar> < 2 ^ 53\<close> and \<open>- 1074 \<le> e\<close>, below \<open>2 ^ 1024\<close> in magnitude.
  The two zeros are one value here: nothing in the server divides by a total or looks at
  the sign of a zero. Every operation computes the exact rational result and rounds it
  to the nearest representable number, ties to the even mantissa (\<open>round_d\<close>): the
  mantissa \<open>m\<close> is the rounded quotient by the unit \<open>2 ^ q\<close> of the last place, and the
  result overflows to an infinity when \<open>m * 2 ^ q\<close> reaches \<open>2 ^ 1024\<close>, that is when
  \<open>q\<close> plus the bit length of \<open>m\<close> exceeds 1024.
\<close>

datatype pyfloat = Finite rat | PInf | NInf | NaN

definition pow2 :: "int \<Rightarrow> rat" where
  "pow2 k = (if 0 \<le> k then 2 ^ nat k else 1 / 2 ^ nat (- k))"

definition ilog2 :: "rat \<Rightarrow> int" where
  \<comment> \<open>for \<open>0 < a\<close>: the \<open>e\<close> with \<open>2 ^ e \<le> a < 2 ^ (e + 1)\<close>\<close>
  "ilog2 a =
     (let (n, d) = quotient_of a; k = bitlen n - bitlen d
      in if pow2 k \<le> a then k else k - 1)"

definition round_half_even :: "rat \<Rightarrow> int" where
  "round_half_even x =
     (let f = \<lfloor>x\<rfloor>; r = x - of_int f
      in if r < 1 / 2 then f else if 1 / 2 < r then f + 1
         else if even f then f else f + 1)"

definition round_d :: "rat \<Rightarrow> pyfloat" where
  "round_d x =
     (if x = 0 then Finite 0
      else
        let a = \<bar>x\<bar>;
            q = max (ilog2 a - 52) (- 1074);
            m = round_half_even (a / pow2 q);
            v = of_int m * pow2 q
        in if 1024 < q + bitlen m then (if 0 < x then PInf else NInf)
           else Finite (if 0 < x then v else - v))"

fun fadd :: "pyfloat \<Rightarrow> pyfloat \<Rightarrow> pyfloat" where
  "fadd NaN _ = NaN"
| "fadd _ NaN = NaN"
| "fadd PInf NInf = NaN"
| "fadd NInf PInf = NaN"
| "fadd PInf _ = PInf"
| "fadd _ PInf = PInf"
| "fadd NInf _ = NInf"
| "fadd _ NInf = NInf"
| "fadd (Finite a) (Finite b) = round_d (a + b)"

definition inf_signed :: "bool \<Rightarrow> pyfloat" where
  "inf_signed positive = (if positive then PInf else NInf)"

fun fmul :: "pyfloat \<Rightarrow> pyfloat \<Rightarrow> pyfloat" where
  "fmul NaN _ = NaN"
| "fmul _ NaN = NaN"
| "fmul PInf PInf = PInf"
| "fmul PInf NInf = NInf"
| "fmul NInf PInf = NInf"
| "fmul NInf NInf = PInf"
| "fmul PInf (Finite b) = (if b = 0 then NaN else inf_signed (0 < b))"
| "fmul NInf (Finite b) = (if b = 0 then NaN else inf_signed (b < 0))"
| "fmul (Finite a) PInf = (if a = 0 then NaN else inf_signed (0 < a))"
| "fmul (Finite a) NInf = (if a = 0 then NaN else inf_signed (a < 0))"
| "fmul (Finite a) (Finite b) = round_d (a * b)"

text \<open>\<^verbatim>\<open>x > 0\<close> on a float: false for NaN.\<close>

fun fgt0 :: "pyfloat \<Rightarrow> bool" where
  "fgt0 (Finite a) = (0 < a)"
| "fgt0 PInf = True"
| "fgt0 NInf = False"
| "fgt0 NaN = False"

text \<open>A float literal of the source is the double nearest to it; \<^verbatim>\<open>0.20\<close> is used as
  the VAT rate of the seed and as the default rate of a custom item.\<close>

definition float_0_20 :: pyfloat where
  "float_0_20 = round_d (20 / 100)"

text \<open>
  \<^verbatim>\<open>qty * unit_price\<close> with an \<^verbatim>\<open>int\<close> on the left converts the integer to a float first;
  Python raises \<^verbatim>\<open>OverflowError\<close> when the integer is too large for a float.
\<close>

definition float_of_int :: "int \<Rightarrow> py_error + pyfloat" where
  "float_of_int n =
     (case round_d (of_int n) of
        Finite a \<Rightarrow> Inr (Finite a)
      | _ \<Rightarrow> Inl OverflowError)"

definition int_mul_float :: "int \<Rightarrow> pyfloat \<Rightarrow> py_error + pyfloat" where
  "int_mul_float n x =
     (case float_of_int n of
        Inl e \<Rightarrow> Inl e
      | Inr f \<Rightarrow> Inr (fmul f x))"

subsection \<open>\<^verbatim>\<open>int(s)\<close> and \<^verbatim>\<open>float(s)\<close>\<close>

text \<open>
  Both built-ins drop the white space around the text, read an optional sign and accept
  an underscore between two digits. \<open>None\<close> is the \<^verbatim>\<open>ValueError\<close> they raise, which
  every call in the server catches, except the one on the mileage.
\<close>

fun drop_underscores :: "char option \<Rightarrow> string \<Rightarrow> string option" where
  "drop_underscores prev [] = (if prev = Some CHR ''_'' then None else Some [])"
| "drop_underscores prev (c # cs) =
     (if c = CHR ''_''
      then (case prev of
              None \<Rightarrow> None
            | Some p \<Rightarrow> if is_digit p then drop_underscores (Some c) cs else None)
      else if prev = Some CHR ''_'' \<and> \<not> is_digit c then None
      else map_option ((#) c) (drop_underscores (Some c) cs))"

definition int_of_digits :: "string \<Rightarrow> int" where
  "int_of_digits ds = foldl (\<lambda>a c. 10 * a + digit_val c) 0 ds"

definition split_sign :: "string \<Rightarrow> bool \<times> string" where
  \<comment> \<open>the flag is true for a leading minus\<close>
  "split_sign s =
     (case s of
        [] \<Rightarrow> (False, [])
      | c # cs \<Rightarrow> if c = CHR ''-'' then (True, cs)
                 else if c = CHR ''+'' then (False, cs) else (False, s))"

definition max_str_digits :: nat where
  "max_str_digits = 4300"

definition py_int :: "string \<Rightarrow> int option" where
  "py_int s =
     (let (neg, body) = split_sign (py_strip s)
      in case drop_underscores None body of
           None \<Rightarrow> None
         | Some ds \<Rightarrow>
             if ds \<noteq> [] \<and> list_all is_digit ds \<and> length ds \<le> max_str_digits
             then Some (if neg then - int_of_digits ds else int_of_digits ds)
             else None)"

definition pow10 :: "int \<Rightarrow> rat" where
  "pow10 k = (if 0 \<le> k then 10 ^ nat k else 1 / 10 ^ nat (- k))"

definition parse_exponent :: "string \<Rightarrow> int option" where
  \<comment> \<open>what follows the mantissa: nothing, or \<open>e\<close>, an optional sign and digits\<close>
  "parse_exponent s =
     (case s of
        [] \<Rightarrow> Some 0
      | c # cs \<Rightarrow>
          if c = CHR ''e'' \<or> c = CHR ''E''
          then (let (neg, ds) = split_sign cs
                in if ds \<noteq> [] \<and> list_all is_digit ds
                   then Some (if neg then - int_of_digits ds else int_of_digits ds)
                   else None)
          else None)"

definition parse_decimal :: "string \<Rightarrow> rat option" where
  "parse_decimal s =
     (let ip = takeWhile is_digit s;
          r1 = dropWhile is_digit s;
          has_dot = (r1 \<noteq> [] \<and> hd r1 = CHR ''.'');
          fp = (if has_dot then takeWhile is_digit (tl r1) else []);
          r2 = (if has_dot then dropWhile is_digit (tl r1) else r1)
      in if ip = [] \<and> fp = [] then None
         else case parse_exponent r2 of
                None \<Rightarrow> None
              | Some ex \<Rightarrow>
                  Some (of_int (int_of_digits (ip @ fp)) * pow10 (ex - int (length fp))))"

definition py_float :: "string \<Rightarrow> pyfloat option" where
  "py_float s =
     (case drop_underscores None (py_strip s) of
        None \<Rightarrow> None
      | Some t \<Rightarrow>
          let (neg, body) = split_sign t; low = py_lower body
          in if low = ''inf'' \<or> low = ''infinity'' then Some (if neg then NInf else PInf)
             else if low = ''nan'' then Some NaN
             else map_option (\<lambda>x. round_d (if neg then - x else x)) (parse_decimal body))"

subsection \<open>Dates\<close>

text \<open>
  \<^verbatim>\<open>datetime.date\<close> holds a year from 1 to 9999, a month and a day of the proleptic
  Gregorian calendar. Adding a \<^verbatim>\<open>timedelta\<close> goes through the ordinal of the date
  (day 1 is 0001-01-01), as \<^verbatim>\<open>_ymd2ord\<close> and \<^verbatim>\<open>_ord2ymd\<close> of the standard library do.
  The server only uses \<^verbatim>\<open>datetime\<close> values at midnight, so a date stands for them.
\<close>

record date =
  year :: int
  month :: int
  day :: int

definition is_leap :: "int \<Rightarrow> bool" where
  "is_leap y = (y mod 4 = 0 \<and> (y mod 100 \<noteq> 0 \<or> y mod 400 = 0))"

definition days_in_month :: "int \<Rightarrow> int \<Rightarrow> int" where
  "days_in_month y m =
     (if m = 2 then (if is_leap y then 29 else 28)
      else if m = 4 \<or> m = 6 \<or> m = 9 \<or> m = 11 then 30 else 31)"

definition valid_date :: "date \<Rightarrow> bool" where
  "valid_date d =
     (1 \<le> year d \<and> year d \<le> 9999 \<and> 1 \<le> month d \<and> month d \<le> 12 \<and>
      1 \<le> day d \<and> day d \<le> days_in_month (year d) (month d))"

definition days_before_year :: "int \<Rightarrow> int" where
  "days_before_year y = (let p = y - 1 in p * 365 + p div 4 - p div 100 + p div 400)"

definition days_before_month :: "int \<Rightarrow> int \<Rightarrow> int" where
  "days_before_month y m = (\<Sum>k\<leftarrow>[1..m - 1]. days_in_month y k)"

definition ymd2ord :: "date \<Rightarrow> int" where
  "ymd2ord d = days_before_year (year d) + days_before_month (year d) (month d) + day d"

definition ord2ymd :: "int \<Rightarrow> date" where
  "ord2ymd n0 =
     (let n = n0 - 1;
          n400 = n div 146097; n = n mod 146097;
          n100 = n div 36524; n = n mod 36524;
          n4 = n div 1461; n = n mod 1461;
          n1 = n div 365; n = n mod 365;
          y = n400 * 400 + 1 + n100 * 100 + n4 * 4 + n1
      in if n1 = 4 \<or> n100 = 4 then \<lparr>year = y - 1, month = 12, day = 31\<rparr>
         else
           let m = (n + 50) div 32;
               preceding = days_before_month y m
           in if preceding > n
              then \<lparr>year = y, month = m - 1,
                    day = n - (preceding - days_in_month y (m - 1)) + 1\<rparr>
              else \<lparr>year = y, month = m, day = n - preceding + 1\<rparr>)"

definition max_ordinal :: int where
  "max_ordinal = 3652059"

text \<open>\<^verbatim>\<open>timedelta(days=n)\<close> raises \<^verbatim>\<open>OverflowError\<close> beyond 999999999 days, and so does
  the addition when the result leaves the years 1 to 9999.\<close>

definition timedelta :: "int \<Rightarrow> py_error + int" where
  "timedelta n = (if \<bar>n\<bar> \<le> 999999999 then Inr n else Inl OverflowError)"

definition date_add :: "date \<Rightarrow> int \<Rightarrow> py_error + date" where
  "date_add d n =
     (let ord = ymd2ord d + n
      in if 1 \<le> ord \<and> ord \<le> max_ordinal then Inr (ord2ymd ord) else Inl OverflowError)"

text \<open>\<^verbatim>\<open>date.isoformat()\<close>, and \<^verbatim>\<open>strftime\<close> with the formats \<^verbatim>\<open>%Y-%m-%d\<close> and
  \<^verbatim>\<open>%Y%m%d\<close>. For a year below 1000 the C library decides whether \<^verbatim>\<open>%Y\<close> is padded;
  the model pads it.\<close>

definition isoformat :: "date \<Rightarrow> string" where
  "isoformat d = fmt_0d 4 (year d) @ ''-'' @ fmt_0d 2 (month d) @ ''-'' @ fmt_0d 2 (day d)"

definition strftime_Y_m_d :: "date \<Rightarrow> string" where
  "strftime_Y_m_d d = fmt_0d 4 (year d) @ ''-'' @ fmt_0d 2 (month d) @ ''-'' @ fmt_0d 2 (day d)"

definition strftime_Ymd :: "date \<Rightarrow> string" where
  "strftime_Ymd d = fmt_0d 4 (year d) @ fmt_0d 2 (month d) @ fmt_0d 2 (day d)"

text \<open>
  \<^verbatim>\<open>datetime.strptime(s, '%Y-%m-%d')\<close> matches the regular expression
  \<^verbatim>\<open>(\d\d\d\d)-(1[0-2]|0[1-9]|[1-9])-(3[0-1]|[1-2]\d|0[1-9]|[1-9]| [1-9])\<close> at the start
  of the text, taking the first alternative that lets the match go on, refuses text left
  over after the match, and then builds the date, which refuses a day the month does not
  have and the year 0. \<open>None\<close> is the \<^verbatim>\<open>ValueError\<close>.
\<close>

definition in_range :: "char \<Rightarrow> char \<Rightarrow> char \<Rightarrow> bool" where
  "in_range lo hi c = ((of_char lo :: nat) \<le> of_char c \<and> (of_char c :: nat) \<le> of_char hi)"

definition match_year :: "string \<Rightarrow> (int \<times> string) option" where
  "match_year s =
     (if 4 \<le> length s \<and> list_all is_digit (take 4 s)
      then Some (int_of_digits (take 4 s), drop 4 s) else None)"

definition match_month :: "string \<Rightarrow> (int \<times> string) list" where
  \<comment> \<open>the alternatives that match, in the order the expression tries them\<close>
  "match_month s =
     (case s of
        [] \<Rightarrow> []
      | c # cs \<Rightarrow>
          (case cs of
             [] \<Rightarrow> []
           | c' # r \<Rightarrow>
               (if c = CHR ''1'' \<and> in_range CHR ''0'' CHR ''2'' c'
                then [(int_of_digits [c, c'], r)] else []) @
               (if c = CHR ''0'' \<and> in_range CHR ''1'' CHR ''9'' c'
                then [(int_of_digits [c, c'], r)] else [])) @
          (if in_range CHR ''1'' CHR ''9'' c then [(digit_val c, cs)] else []))"

definition match_day :: "string \<Rightarrow> (int \<times> string) list" where
  "match_day s =
     (case s of
        [] \<Rightarrow> []
      | c # cs \<Rightarrow>
          (case cs of
             [] \<Rightarrow> []
           | c' # r \<Rightarrow>
               (if c = CHR ''3'' \<and> in_range CHR ''0'' CHR ''1'' c'
                then [(int_of_digits [c, c'], r)] else []) @
               (if in_range CHR ''1'' CHR ''2'' c \<and> is_digit c'
                then [(int_of_digits [c, c'], r)] else []) @
               (if c = CHR ''0'' \<and> in_range CHR ''1'' CHR ''9'' c'
                then [(int_of_digits [c, c'], r)] else [])) @
          (if in_range CHR ''1'' CHR ''9'' c then [(digit_val c, cs)] else []) @
          (case cs of
             [] \<Rightarrow> []
           | c' # r \<Rightarrow>
               (if c = CHR '' '' \<and> in_range CHR ''1'' CHR ''9'' c'
                then [(digit_val c', r)] else [])))"

definition expect_dash :: "string \<Rightarrow> string option" where
  "expect_dash s = (case s of [] \<Rightarrow> None | c # cs \<Rightarrow> if c = CHR ''-'' then Some cs else None)"

definition match_Y_m_d :: "string \<Rightarrow> (date \<times> string) option" where
  \<comment> \<open>the match of the whole expression and the text after it\<close>
  "match_Y_m_d s =
     (case match_year s of
        None \<Rightarrow> None
      | Some (y, r1) \<Rightarrow>
          (case expect_dash r1 of
             None \<Rightarrow> None
           | Some r2 \<Rightarrow>
               (case concat (map (\<lambda>(m, r3).
                        case expect_dash r3 of
                          None \<Rightarrow> []
                        | Some r4 \<Rightarrow> map (\<lambda>(d, r5). (\<lparr>year = y, month = m, day = d\<rparr>, r5))
                                       (match_day r4))
                      (match_month r2)) of
                  [] \<Rightarrow> None
                | x # _ \<Rightarrow> Some x)))"

definition strptime_Y_m_d :: "string \<Rightarrow> date option" where
  "strptime_Y_m_d s =
     (case match_Y_m_d s of
        None \<Rightarrow> None
      | Some (d, rest) \<Rightarrow> if rest = [] \<and> valid_date d then Some d else None)"

section \<open>The store\<close>

text \<open>
  The tables of \<^verbatim>\<open>init_db\<close>, one record per row, in the order of their row ids. The column
  names carry the table's initial, since two tables share most of them. A \<^verbatim>\<open>REAL\<close>
  column holds a float and an \<^verbatim>\<open>INTEGER\<close> column an integer; a nullable column is an
  option. Every id is \<^verbatim>\<open>INTEGER PRIMARY KEY AUTOINCREMENT\<close>: a new row gets one more than
  the largest id the table ever had, which SQLite keeps in \<^verbatim>\<open>sqlite_sequence\<close> and which
  is never negative. A table full at the id \<open>2 ^ 63 - 1\<close> is outside the model.
\<close>

record customer =
  c_id :: int
  c_first_name :: string
  c_last_name :: string
  c_phone :: string
  c_email :: string
  c_address :: string

record vehicle =
  v_id :: int
  v_customer_id :: int
  v_vrm :: string
  v_make :: string
  v_model :: string
  v_mileage :: "int option"

record service =
  s_id :: int
  s_name :: string
  s_description :: string
  s_unit_price :: pyfloat
  s_vat_rate :: pyfloat

record booking =
  b_id :: int
  b_customer_id :: int
  b_vehicle_id :: int
  b_booking_date :: string
  b_notes :: string
  b_status :: string

record booking_item =
  bi_id :: int
  bi_booking_id :: int
  bi_service_id :: int
  bi_quantity :: int
  bi_unit_price :: pyfloat
  bi_vat_rate :: pyfloat

record misc_item =
  mi_id :: int
  mi_booking_id :: int
  mi_name :: string
  mi_quantity :: int
  mi_unit_price :: pyfloat
  mi_vat_rate :: pyfloat

record invoice =
  inv_id :: int
  inv_booking_id :: int
  inv_number :: string
  inv_issue_date :: string
  inv_total_ex_vat :: pyfloat
  inv_total_vat :: pyfloat
  inv_total_inc :: pyfloat
  inv_status :: string

record store =
  customers :: "customer list"
  vehicles :: "vehicle list"
  services :: "service list"
  bookings :: "booking list"
  booking_items :: "booking_item list"
  misc_items :: "misc_item list"
  invoices :: "invoice list"
  settings :: "(string \<times> string option) list"
  sqlite_sequence :: "(string \<times> nat) list"

definition empty_store :: store where
  "empty_store =
     \<lparr>customers = [], vehicles = [], services = [], bookings = [], booking_items = [],
      misc_items = [], invoices = [], settings = [], sqlite_sequence = []\<rparr>"

definition sequence_of :: "store \<Rightarrow> string \<Rightarrow> nat" where
  "sequence_of st table = (case map_of (sqlite_sequence st) table of None \<Rightarrow> 0 | Some n \<Rightarrow> n)"

definition next_rowid :: "store \<Rightarrow> string \<Rightarrow> int list \<Rightarrow> int" where
  "next_rowid st table ids = foldr max ids (int (sequence_of st table)) + 1"

definition bump_sequence :: "string \<Rightarrow> int \<Rightarrow> store \<Rightarrow> store" where
  "bump_sequence table n st =
     st\<lparr>sqlite_sequence := AList.update table (nat n) (sqlite_sequence st)\<rparr>"

text \<open>
  What the \<^verbatim>\<open>sqlite3\<close> module does with a parameter: a Python integer outside 64 bits
  raises \<^verbatim>\<open>OverflowError\<close> when it is bound; a float NaN is bound as NULL, which a
  \<^verbatim>\<open>NOT NULL\<close> column refuses with \<^verbatim>\<open>IntegrityError\<close>. The checks are made on the values
  that come from the request; the ids read from the store are SQLite integers already.
\<close>

definition sqlite_int :: "int \<Rightarrow> bool" where
  "sqlite_int n = (- (2 ^ 63) \<le> n \<and> n < 2 ^ 63)"

definition bind_int :: "int \<Rightarrow> py_error + unit" where
  "bind_int n = (if sqlite_int n then Inr () else Inl OverflowError)"

definition not_null_real :: "pyfloat \<Rightarrow> py_error + unit" where
  "not_null_real x = (if x = NaN then Inl IntegrityError else Inr ())"

definition and_then :: "py_error + 'a \<Rightarrow> ('a \<Rightarrow> py_error + 'b) \<Rightarrow> py_error + 'b" where
  "and_then r f = (case r of Inl e \<Rightarrow> Inl e | Inr x \<Rightarrow> f x)"

definition insert_customer ::
  "store \<Rightarrow> string \<Rightarrow> string \<Rightarrow> string \<Rightarrow> string \<Rightarrow> string \<Rightarrow> store \<times> int" where
  "insert_customer st fname lname ph em ad =
     (let n = next_rowid st ''customers'' (map c_id (customers st))
      in (bump_sequence ''customers'' n
            (st\<lparr>customers := customers st @
               [\<lparr>c_id = n, c_first_name = fname, c_last_name = lname, c_phone = ph,
                 c_email = em, c_address = ad\<rparr>]\<rparr>), n))"

definition insert_vehicle ::
  "store \<Rightarrow> int \<Rightarrow> string \<Rightarrow> string \<Rightarrow> string \<Rightarrow> int option \<Rightarrow> py_error + store \<times> int" where
  "insert_vehicle st cid vrm vmake vmodel mileage =
     and_then (case mileage of None \<Rightarrow> Inr () | Some m \<Rightarrow> bind_int m) (\<lambda>_.
       let n = next_rowid st ''vehicles'' (map v_id (vehicles st))
       in Inr (bump_sequence ''vehicles'' n
            (st\<lparr>vehicles := vehicles st @
               [\<lparr>v_id = n, v_customer_id = cid, v_vrm = vrm, v_make = vmake,
                 v_model = vmodel, v_mileage = mileage\<rparr>]\<rparr>), n))"

definition insert_booking ::
  "store \<Rightarrow> int \<Rightarrow> int \<Rightarrow> string \<Rightarrow> string \<Rightarrow> string \<Rightarrow> store \<times> int" where
  "insert_booking st cid vid bdate notes status =
     (let n = next_rowid st ''bookings'' (map b_id (bookings st))
      in (bump_sequence ''bookings'' n
            (st\<lparr>bookings := bookings st @
               [\<lparr>b_id = n, b_customer_id = cid, b_vehicle_id = vid, b_booking_date = bdate,
                 b_notes = notes, b_status = status\<rparr>]\<rparr>), n))"

definition insert_booking_item ::
  "store \<Rightarrow> int \<Rightarrow> int \<Rightarrow> int \<Rightarrow> pyfloat \<Rightarrow> pyfloat \<Rightarrow> py_error + store" where
  "insert_booking_item st bid sid qty price vat =
     and_then (bind_int qty) (\<lambda>_.
     and_then (not_null_real price) (\<lambda>_.
     and_then (not_null_real vat) (\<lambda>_.
       let n = next_rowid st ''booking_items'' (map bi_id (booking_items st))
       in Inr (bump_sequence ''booking_items'' n
            (st\<lparr>booking_items := booking_items st @
               [\<lparr>bi_id = n, bi_booking_id = bid, bi_service_id = sid, bi_quantity = qty,
                 bi_unit_price = price, bi_vat_rate = vat\<rparr>]\<rparr>)))))"

definition insert_misc_item ::
  "store \<Rightarrow> int \<Rightarrow> string \<Rightarrow> int \<Rightarrow> pyfloat \<Rightarrow> pyfloat \<Rightarrow> py_error + store" where
  "insert_misc_item st bid name qty price vat =
     and_then (bind_int qty) (\<lambda>_.
     and_then (not_null_real price) (\<lambda>_.
     and_then (not_null_real vat) (\<lambda>_.
       let n = next_rowid st ''misc_items'' (map mi_id (misc_items st))
       in Inr (bump_sequence ''misc_items'' n
            (st\<lparr>misc_items := misc_items st @
               [\<lparr>mi_id = n, mi_booking_id = bid, mi_name = name, mi_quantity = qty,
                 mi_unit_price = price, mi_vat_rate = vat\<rparr>]\<rparr>)))))"

definition insert_invoice ::
  "store \<Rightarrow> int \<Rightarrow> string \<Rightarrow> string \<Rightarrow> pyfloat \<Rightarrow> pyfloat \<Rightarrow> pyfloat \<Rightarrow> string
     \<Rightarrow> py_error + store \<times> int" where
  "insert_invoice st bid number issue tex tvat tinc status =
     and_then (not_null_real tex) (\<lambda>_.
     and_then (not_null_real tvat) (\<lambda>_.
     and_then (not_null_real tinc) (\<lambda>_.
       let n = next_rowid st ''invoices'' (map inv_id (invoices st))
       in Inr (bump_sequence ''invoices'' n
            (st\<lparr>invoices := invoices st @
               [\<lparr>inv_id = n, inv_booking_id = bid, inv_number = number,
                 inv_issue_date = issue, inv_total_ex_vat = tex, inv_total_vat = tvat,
                 inv_total_inc = tinc, inv_status = status\<rparr>]\<rparr>), n))))"

subsection \<open>\<^verbatim>\<open>init_db\<close>\<close>

text \<open>The tables are created empty; the settings and the services are seeded when their
  table is empty. A float literal of the source is the double nearest to it.\<close>

definition default_settings :: "(string \<times> string option) list" where
  "default_settings =
     [(''company_name'', Some ''Motorhouse Beds Ltd''),
      (''address_line1'', Some ''87 High Street''),
      (''address_line2'', Some ''Clapham''),
      (''address_city'', Some ''Bedford''),
      (''address_county'', Some ''Bedfordshire''),
      (''address_postcode'', Some ''MK41 6AQ''),
      (''phone1'', Some ''01234 225570''),
      (''phone2'', Some ''07923 829234''),
      (''email'', Some ''info@motorhouse-beds.co.uk''),
      (''company_number'', Some ''14696224''),
      (''fca_number'', Some ''1000208''),
      (''payment_methods'', Some ''Bank transfer, Credit/Debit card, Cash''),
      (''bank_details'', Some ''Sort Code: 01-02-03, Account No: 12345678''),
      (''payment_terms_days'', Some ''14''),
      (''terms_conditions'', Some (''Payment is due within 14 days of the invoice date. '' @
         ''Late payments may incur interest at 2% per month. '' @
         ''All goods remain the property of Motorhouse Beds Ltd until paid for in full.''))]"

definition seed_services :: "(string \<times> string \<times> pyfloat \<times> pyfloat) list" where
  "seed_services =
     [(''Full Service'',
       ''Comprehensive vehicle servicing including oil and filter change, safety checks and diagnostics'',
       round_d 200, float_0_20),
      (''Interim Service'',
       ''Basic service including oil and filter change and essential safety checks'',
       round_d 120, float_0_20),
      (''MOT Test'', ''Annual Ministry of Transport test to ensure roadworthiness'',
       round_d (5485 / 100), round_d 0),
      (''Brake Pads Replacement'', ''Replace front or rear brake pads as needed'',
       round_d 150, float_0_20),
      (''Diagnostics'', ''Computer diagnostics and fault code reading'',
       round_d 60, float_0_20)]"

definition insert_service :: "store \<Rightarrow> string \<times> string \<times> pyfloat \<times> pyfloat \<Rightarrow> store" where
  "insert_service st row =
     (case row of (name, descr, price, vat) \<Rightarrow>
        let n = next_rowid st ''services'' (map s_id (services st))
        in bump_sequence ''services'' n
             (st\<lparr>services := services st @
                [\<lparr>s_id = n, s_name = name, s_description = descr, s_unit_price = price,
                  s_vat_rate = vat\<rparr>]\<rparr>))"

definition init_db :: "store \<Rightarrow> store" where
  "init_db st =
     (let st1 = (if length (settings st) = 0 then st\<lparr>settings := default_settings\<rparr> else st)
      in if length (services st1) = 0 then foldl insert_service st1 seed_services else st1)"

section \<open>The request handlers\<close>

text \<open>
  \<^verbatim>\<open>do_POST\<close> parses the body with \<^verbatim>\<open>parse_qs\<close>, which maps a field name to the
  non-empty list of its values; the handlers read \<^verbatim>\<open>fields.get(name, [default])[0]\<close>
  only, so a request is the map from a field name to its first value. A handler takes
  the committed store and returns the store it commits and the response it sends, or the
  exception that ends it before the commit. \<^verbatim>\<open>datetime.date.today()\<close> is the argument
  \<open>today\<close>: one request reads one date.
\<close>

type_synonym fields = "string \<Rightarrow> string option"

definition field :: "fields \<Rightarrow> string \<Rightarrow> string \<Rightarrow> string" where
  "field fs name dflt = (case fs name of None \<Rightarrow> dflt | Some v \<Rightarrow> v)"

record item_row =
  row_name :: string
  row_quantity :: int
  row_unit_price :: pyfloat
  row_line_total_ex :: pyfloat
  row_line_vat :: pyfloat
  row_line_total_inc :: pyfloat

text \<open>The variables that \<^verbatim>\<open>handle_invoice\<close> hands to the template of the invoice page:
  the dates as the strings it formats, the lines and the totals as the values it formats.
  The company, customer and vehicle strings are copied from the rows and left out.\<close>

record invoice_page =
  pg_invoice_number :: string
  pg_issue_date :: string
  pg_due_date :: string
  pg_next_service_date :: string
  pg_items_rows :: "item_row list"
  pg_total_ex :: pyfloat
  pg_total_vat :: pyfloat
  pg_total_inc :: pyfloat

datatype response = Redirect303 string | HttpError nat string | Html200 invoice_page

definition get_settings :: "store \<Rightarrow> string \<Rightarrow> string option option" where
  \<comment> \<open>the dictionary built from the rows; a later row would replace an earlier one\<close>
  "get_settings st = map_of (rev (settings st))"

subsection \<open>\<^verbatim>\<open>next_invoice_number\<close>\<close>

definition latest_invoice_id :: "store \<Rightarrow> int option" where
  \<comment> \<open>\<^verbatim>\<open>SELECT id FROM invoices ORDER BY id DESC LIMIT 1\<close>\<close>
  "latest_invoice_id st =
     (case map inv_id (invoices st) of [] \<Rightarrow> None | x # xs \<Rightarrow> Some (foldr max xs x))"

definition next_invoice_number :: "date \<Rightarrow> store \<Rightarrow> string" where
  "next_invoice_number today st =
     (let next_id = (case latest_invoice_id st of Some n \<Rightarrow> n + 1 | None \<Rightarrow> 1);
          date_str = strftime_Ymd today
      in ''INV'' @ date_str @ ''-'' @ fmt_0d 3 next_id)"

subsection \<open>\<^verbatim>\<open>process_new_booking\<close>\<close>

definition booking_date_of :: "date \<Rightarrow> fields \<Rightarrow> string" where
  "booking_date_of today fs =
     (let date_str = py_strip (field fs ''booking_date'' '''')
      in if date_str \<noteq> []
         then (case strptime_Y_m_d date_str of
                 Some _ \<Rightarrow> date_str
               | None \<Rightarrow> isoformat today)
         else isoformat today)"

definition py_isdigit :: "string \<Rightarrow> bool" where
  "py_isdigit s = (s \<noteq> [] \<and> list_all is_digit s)"

definition mileage_of :: "string \<Rightarrow> py_error + int option" where
  \<comment> \<open>\<^verbatim>\<open>int(mileage) if mileage.isdigit() else None\<close>\<close>
  "mileage_of mileage =
     (if py_isdigit mileage
      then (case py_int mileage of None \<Rightarrow> Inl ValueError | Some n \<Rightarrow> Inr (Some n))
      else Inr None)"

text \<open>The loop over the services: the state is the store and the two running totals.\<close>

fun add_services ::
  "fields \<Rightarrow> int \<Rightarrow> service list \<Rightarrow> store \<times> pyfloat \<times> pyfloat
     \<Rightarrow> py_error + store \<times> pyfloat \<times> pyfloat" where
  "add_services fs booking_id [] acc = Inr acc"
| "add_services fs booking_id (svc # svcs) (st, total_ex_vat, total_vat) =
     (let qty_key = ''qty_'' @ py_str (s_id svc);
          qty_str = field fs qty_key ''0'';
          qty = (case py_int qty_str of Some q \<Rightarrow> q | None \<Rightarrow> 0)
      in if qty > 0
         then and_then (insert_booking_item st booking_id (s_id svc) qty
                          (s_unit_price svc) (s_vat_rate svc)) (\<lambda>st'.
              and_then (int_mul_float qty (s_unit_price svc)) (\<lambda>line_total.
                let line_vat = fmul line_total (s_vat_rate svc)
                in add_services fs booking_id svcs
                     (st', fadd total_ex_vat line_total, fadd total_vat line_vat)))
         else add_services fs booking_id svcs (st, total_ex_vat, total_vat))"

text \<open>The loop \<^verbatim>\<open>for i in range(1, 4)\<close> over the custom items.\<close>

definition range_1_4 :: "nat list" where
  "range_1_4 = [1, 2, 3]"

fun add_custom_items ::
  "fields \<Rightarrow> int \<Rightarrow> nat list \<Rightarrow> store \<times> pyfloat \<times> pyfloat
     \<Rightarrow> py_error + store \<times> pyfloat \<times> pyfloat" where
  "add_custom_items fs booking_id [] acc = Inr acc"
| "add_custom_items fs booking_id (i # is) (st, total_ex_vat, total_vat) =
     (let name_val = py_strip (field fs (''custom_name_'' @ py_str (int i)) '''');
          qty_val = field fs (''custom_qty_'' @ py_str (int i)) ''0'';
          price_val = field fs (''custom_price_'' @ py_str (int i)) '''';
          vat_val = field fs (''custom_vat_'' @ py_str (int i)) ''''
      in if name_val = [] then add_custom_items fs booking_id is (st, total_ex_vat, total_vat)
         else
           let qty_int = (case py_int qty_val of Some q \<Rightarrow> q | None \<Rightarrow> 0);
               price_float = (case py_float price_val of Some x \<Rightarrow> x | None \<Rightarrow> Finite 0);
               vat_float = (case py_float vat_val of Some x \<Rightarrow> x | None \<Rightarrow> float_0_20)
           in if qty_int > 0 \<and> fgt0 price_float
              then and_then (insert_misc_item st booking_id name_val qty_int
                               price_float vat_float) (\<lambda>st'.
                   and_then (int_mul_float qty_int price_float) (\<lambda>line_total.
                     let line_vat = fmul line_total vat_float
                     in add_custom_items fs booking_id is
                          (st', fadd total_ex_vat line_total, fadd total_vat line_vat)))
              else add_custom_items fs booking_id is (st, total_ex_vat, total_vat))"

text \<open>
  \<^verbatim>\<open>next_invoice_number\<close> opens a connection of its own, so it reads the committed store
  \<open>st\<close>, not the rows this request has inserted and not yet committed.
\<close>

definition process_new_booking :: "date \<Rightarrow> store \<Rightarrow> fields \<Rightarrow> py_error + store \<times> response" where
  "process_new_booking today st fs =
     (let first_name = py_strip (field fs ''first_name'' '''');
          last_name = py_strip (field fs ''last_name'' '''');
          phone = py_strip (field fs ''phone'' '''');
          email = py_strip (field fs ''email'' '''');
          address = py_strip (field fs ''address'' '''');
          vrm = py_upper (py_strip (field fs ''vrm'' ''''));
          vmake = py_strip (field fs ''make'' '''');
          vmodel = py_strip (field fs ''model'' '''');
          mileage = py_strip (field fs ''mileage'' ''0'');
          booking_date = booking_date_of today fs;
          notes = py_strip (field fs ''notes'' '''');
          (st1, customer_id) = insert_customer st first_name last_name phone email address
      in and_then (mileage_of mileage) (\<lambda>mileage_val.
         and_then (insert_vehicle st1 customer_id vrm vmake vmodel mileage_val) (\<lambda>(st2, vehicle_id).
           let (st3, booking_id) =
                 insert_booking st2 customer_id vehicle_id booking_date notes ''booked''
           in and_then (add_services fs booking_id (services st3) (st3, Finite 0, Finite 0)) (\<lambda>acc.
              and_then (add_custom_items fs booking_id range_1_4 acc) (\<lambda>(st5, total_ex_vat, total_vat).
                if fgt0 total_ex_vat
                then
                  let invoice_number = next_invoice_number today st;
                      total_inc = fadd total_ex_vat total_vat;
                      issue_date = isoformat today
                  in and_then (insert_invoice st5 booking_id invoice_number issue_date
                                 total_ex_vat total_vat total_inc ''unpaid'') (\<lambda>(st6, invoice_id).
                       Inr (st6, if invoice_id \<noteq> 0
                                 then Redirect303 (''/invoice/'' @ py_str invoice_id)
                                 else Redirect303 ''/''))
                else Inr (st5, Redirect303 ''/''))))))"

subsection \<open>\<^verbatim>\<open>handle_invoice\<close>\<close>

fun item_rows :: "(string \<times> int \<times> pyfloat \<times> pyfloat) list \<Rightarrow> py_error + item_row list" where
  "item_rows [] = Inr []"
| "item_rows ((name, qty, unit_price, vat_rate) # rest) =
     and_then (int_mul_float qty unit_price) (\<lambda>line_total_ex.
       let line_vat = fmul line_total_ex vat_rate;
           line_total_inc = fadd line_total_ex line_vat
       in and_then (item_rows rest) (\<lambda>rows.
            Inr (\<lparr>row_name = name, row_quantity = qty, row_unit_price = unit_price,
                  row_line_total_ex = line_total_ex, row_line_vat = line_vat,
                  row_line_total_inc = line_total_inc\<rparr> # rows)))"

definition payment_terms_days :: "(string \<Rightarrow> string option option) \<Rightarrow> py_error + int" where
  \<comment> \<open>\<^verbatim>\<open>int(settings.get('payment_terms_days', '14'))\<close>, 14 on \<^verbatim>\<open>ValueError\<close>; a NULL
      value is \<^verbatim>\<open>None\<close>, on which \<^verbatim>\<open>int\<close> raises \<^verbatim>\<open>TypeError\<close>\<close>
  "payment_terms_days sett =
     (case (case sett ''payment_terms_days'' of None \<Rightarrow> Some ''14'' | Some v \<Rightarrow> v) of
        None \<Rightarrow> Inl TypeError
      | Some s \<Rightarrow> Inr (case py_int s of Some n \<Rightarrow> n | None \<Rightarrow> 14))"

fun service_months :: "string list \<Rightarrow> int" where
  \<comment> \<open>the loop that sets \<^verbatim>\<open>months = 6\<close> and breaks at the first name with "interim"\<close>
  "service_months [] = 12"
| "service_months (name # names) =
     (if py_in ''interim'' (py_lower name) then 6 else service_months names)"

definition handle_invoice :: "store \<Rightarrow> int \<Rightarrow> py_error + response" where
  "handle_invoice st invoice_id =
     and_then (bind_int invoice_id) (\<lambda>_.
       case [(i, b). i \<leftarrow> invoices st, inv_id i = invoice_id,
                     b \<leftarrow> bookings st, b_id b = inv_booking_id i,
                     c \<leftarrow> customers st, c_id c = b_customer_id b,
                     v \<leftarrow> vehicles st, v_id v = b_vehicle_id b] of
         [] \<Rightarrow> Inr (HttpError 404 ''Invoice not found'')
       | (i, b) # _ \<Rightarrow>
           let booking_id = b_id b;
               items =
                 [(s_name s, bi_quantity bi, bi_unit_price bi, bi_vat_rate bi).
                    bi \<leftarrow> booking_items st, bi_booking_id bi = booking_id,
                    s \<leftarrow> services st, s_id s = bi_service_id bi] @
                 [(mi_name m, mi_quantity m, mi_unit_price m, mi_vat_rate m).
                    m \<leftarrow> misc_items st, mi_booking_id m = booking_id];
               service_names = map fst items
           in and_then (item_rows items) (\<lambda>rows.
              and_then (payment_terms_days (get_settings st)) (\<lambda>days.
                case strptime_Y_m_d (inv_issue_date i) of
                  None \<Rightarrow> Inl ValueError
                | Some issue_dt \<Rightarrow>
                    and_then (timedelta days) (\<lambda>delta.
                    and_then (date_add issue_dt delta) (\<lambda>due_dt.
                      let months = service_months service_names
                      in and_then (timedelta (30 * months)) (\<lambda>delta'.
                         and_then (date_add issue_dt delta') (\<lambda>next_service_dt.
                           Inr (Html200
                             \<lparr>pg_invoice_number = inv_number i,
                              pg_issue_date = inv_issue_date i,
                              pg_due_date = strftime_Y_m_d due_dt,
                              pg_next_service_date = strftime_Y_m_d next_service_dt,
                              pg_items_rows = rows,
                              pg_total_ex = inv_total_ex_vat i,
                              pg_total_vat = inv_total_vat i,
                              pg_total_inc = inv_total_inc i\<rparr>))))))))"

subsection \<open>\<^verbatim>\<open>process_cancel_booking\<close>\<close>

definition cancel_rows :: "int \<Rightarrow> store \<Rightarrow> store" where
  \<comment> \<open>the two \<^verbatim>\<open>UPDATE\<close> statements\<close>
  "cancel_rows booking_id st =
     st\<lparr>bookings :=
          map (\<lambda>b. if b_id b = booking_id then b\<lparr>b_status := ''canceled''\<rparr> else b) (bookings st),
        invoices :=
          map (\<lambda>i. if inv_booking_id i = booking_id then i\<lparr>inv_status := ''canceled''\<rparr> else i)
            (invoices st)\<rparr>"

definition process_cancel_booking :: "store \<Rightarrow> fields \<Rightarrow> py_error + store \<times> response" where
  "process_cancel_booking st fs =
     (let booking_id_str = field fs ''booking_id'' ''''
      in case py_int booking_id_str of
           None \<Rightarrow> Inr (st, HttpError 400 ''Invalid booking ID'')
         | Some booking_id \<Rightarrow>
             and_then (bind_int booking_id) (\<lambda>_.
               Inr (cancel_rows booking_id st, Redirect303 ''/bookings'')))"

section \<open>What the specification says, in the terms of the model\<close>

text \<open>A line of an invoice: \<open>line_ex = quantity * unit_price\<close> and
  \<open>line_vat = line_ex * vat_rate\<close>, in float arithmetic; a total is the sum of its lines
  from \<open>0.0\<close>, added in the order of the lines.\<close>

definition line_ex :: "int \<Rightarrow> pyfloat \<Rightarrow> pyfloat" where
  "line_ex quantity unit_price = fmul (round_d (of_int quantity)) unit_price"

definition line_vat :: "int \<Rightarrow> pyfloat \<Rightarrow> pyfloat \<Rightarrow> pyfloat" where
  "line_vat quantity unit_price vat_rate = fmul (line_ex quantity unit_price) vat_rate"

definition float_sum :: "pyfloat list \<Rightarrow> pyfloat" where
  "float_sum xs = foldl fadd (Finite 0) xs"

text \<open>The lines of a booking as rows of the two item tables: quantity, unit price and
  VAT rate.\<close>

type_synonym line = "int \<times> pyfloat \<times> pyfloat"

definition booking_item_line :: "booking_item \<Rightarrow> line" where
  "booking_item_line r = (bi_quantity r, bi_unit_price r, bi_vat_rate r)"

definition misc_item_line :: "misc_item \<Rightarrow> line" where
  "misc_item_line r = (mi_quantity r, mi_unit_price r, mi_vat_rate r)"

definition lines_ex :: "line list \<Rightarrow> pyfloat list" where
  "lines_ex ls = map (\<lambda>(q, p, v). line_ex q p) ls"

definition lines_vat :: "line list \<Rightarrow> pyfloat list" where
  "lines_vat ls = map (\<lambda>(q, p, v). line_vat q p v) ls"

text \<open>The rows a request adds to a table are those after the rows that were there.\<close>

definition added :: "'a list \<Rightarrow> 'a list \<Rightarrow> 'a list" where
  "added old new = drop (length old) new"

text \<open>What \<^verbatim>\<open>process_new_booking\<close> reads from the request for a service and for the custom
  item \<open>i\<close>, with the defaults it substitutes, and whether it keeps the custom item.\<close>

definition qty_of :: "fields \<Rightarrow> service \<Rightarrow> int" where
  "qty_of fs svc =
     (case py_int (field fs (''qty_'' @ py_str (s_id svc)) ''0'') of Some q \<Rightarrow> q | None \<Rightarrow> 0)"

definition custom_name :: "fields \<Rightarrow> nat \<Rightarrow> string" where
  "custom_name fs i = py_strip (field fs (''custom_name_'' @ py_str (int i)) '''')"

definition custom_qty :: "fields \<Rightarrow> nat \<Rightarrow> int" where
  "custom_qty fs i =
     (case py_int (field fs (''custom_qty_'' @ py_str (int i)) ''0'') of Some q \<Rightarrow> q | None \<Rightarrow> 0)"

definition custom_price :: "fields \<Rightarrow> nat \<Rightarrow> pyfloat" where
  "custom_price fs i =
     (case py_float (field fs (''custom_price_'' @ py_str (int i)) '''') of
        Some x \<Rightarrow> x | None \<Rightarrow> Finite 0)"

definition custom_vat :: "fields \<Rightarrow> nat \<Rightarrow> pyfloat" where
  "custom_vat fs i =
     (case py_float (field fs (''custom_vat_'' @ py_str (int i)) '''') of
        Some x \<Rightarrow> x | None \<Rightarrow> float_0_20)"

definition custom_kept :: "fields \<Rightarrow> nat \<Rightarrow> bool" where
  "custom_kept fs i = (custom_name fs i \<noteq> [] \<and> 0 < custom_qty fs i \<and> fgt0 (custom_price fs i))"

text \<open>Stores that agree outside one item table and its sequence.\<close>

definition frame_bi :: "store \<Rightarrow> store \<Rightarrow> bool" where
  "frame_bi st st' \<longleftrightarrow>
     customers st' = customers st \<and> vehicles st' = vehicles st \<and> services st' = services st \<and>
     bookings st' = bookings st \<and> misc_items st' = misc_items st \<and> invoices st' = invoices st \<and>
     settings st' = settings st \<and>
     (\<forall>t. t \<noteq> ''booking_items'' \<longrightarrow> sequence_of st' t = sequence_of st t)"

definition frame_mi :: "store \<Rightarrow> store \<Rightarrow> bool" where
  "frame_mi st st' \<longleftrightarrow>
     customers st' = customers st \<and> vehicles st' = vehicles st \<and> services st' = services st \<and>
     bookings st' = bookings st \<and> booking_items st' = booking_items st \<and>
     invoices st' = invoices st \<and> settings st' = settings st \<and>
     (\<forall>t. t \<noteq> ''misc_items'' \<longrightarrow> sequence_of st' t = sequence_of st t)"

text \<open>The ids the next booking and the next invoice get, and the lines of a submission:
  the services with a positive quantity in the order of the table, then the custom items
  that are kept.\<close>

definition new_booking_id :: "store \<Rightarrow> int" where
  "new_booking_id st = next_rowid st ''bookings'' (map b_id (bookings st))"

definition new_invoice_id :: "store \<Rightarrow> int" where
  "new_invoice_id st = next_rowid st ''invoices'' (map inv_id (invoices st))"

definition service_lines :: "fields \<Rightarrow> store \<Rightarrow> (int \<times> line) list" where
  \<comment> \<open>the service id and the line\<close>
  "service_lines fs st =
     [(s_id s, qty_of fs s, s_unit_price s, s_vat_rate s). s \<leftarrow> services st, 0 < qty_of fs s]"

definition custom_lines :: "fields \<Rightarrow> (string \<times> line) list" where
  \<comment> \<open>the name and the line\<close>
  "custom_lines fs =
     [(custom_name fs i, custom_qty fs i, custom_price fs i, custom_vat fs i).
        i \<leftarrow> range_1_4, custom_kept fs i]"

definition booking_lines :: "fields \<Rightarrow> store \<Rightarrow> line list" where
  "booking_lines fs st = map snd (service_lines fs st) @ map snd (custom_lines fs)"

text \<open>
  When the store refuses a submission: the mileage is made of digits and \<^verbatim>\<open>int\<close> or
  SQLite refuses it, a line holds a quantity beyond 64 bits or a NaN, or the invoice to
  write holds a NaN total. The request then ends with the exception and commits nothing.
\<close>

definition mileage_refused :: "fields \<Rightarrow> bool" where
  "mileage_refused fs =
     (case mileage_of (py_strip (field fs ''mileage'' ''0'')) of
        Inl _ \<Rightarrow> True
      | Inr None \<Rightarrow> False
      | Inr (Some m) \<Rightarrow> \<not> sqlite_int m)"

definition line_refused :: "line \<Rightarrow> bool" where
  "line_refused l =
     (case l of (q, p, v) \<Rightarrow> \<not> sqlite_int q \<or> p = NaN \<or> v = NaN \<or> isl (float_of_int q))"

definition invoice_refused :: "store \<Rightarrow> fields \<Rightarrow> bool" where
  "invoice_refused st fs =
     (let tex = float_sum (lines_ex (booking_lines fs st));
          tvat = float_sum (lines_vat (booking_lines fs st))
      in fgt0 tex \<and> (tvat = NaN \<or> fadd tex tvat = NaN))"

definition rejected :: "store \<Rightarrow> fields \<Rightarrow> bool" where
  "rejected st fs =
     (mileage_refused fs \<or> list_ex line_refused (booking_lines fs st) \<or> invoice_refused st fs)"

text \<open>The names of the line items of a booking, services first, and the payment terms
  the settings configure: the value parsed as an integer, 14 when it is missing or does
  not parse.\<close>

definition line_item_names :: "store \<Rightarrow> int \<Rightarrow> string list" where
  "line_item_names st booking_id =
     [s_name s. bi \<leftarrow> booking_items st, bi_booking_id bi = booking_id,
                s \<leftarrow> services st, s_id s = bi_service_id bi] @
     [mi_name m. m \<leftarrow> misc_items st, mi_booking_id m = booking_id]"

definition terms_days :: "store \<Rightarrow> int" where
  "terms_days st =
     (case get_settings st ''payment_terms_days'' of
        Some (Some s) \<Rightarrow> (case py_int s of Some n \<Rightarrow> n | None \<Rightarrow> 14)
      | _ \<Rightarrow> 14)"

definition mentions_interim :: "string \<Rightarrow> bool" where
  \<comment> \<open>the name contains "interim", whatever the case of its letters\<close>
  "mentions_interim name = sublist ''interim'' (py_lower name)"

section \<open>A small run of the server\<close>

text \<open>A database with two services of the seed and the payment terms, the date of the
  requests, and the requests used below at concrete inputs. An empty form field is
  absent from the request: \<^verbatim>\<open>parse_qs\<close> drops it.\<close>

definition example_today :: date where
  "example_today = \<lparr>year = 2024, month = 1, day = 20\<rparr>"

definition example_store :: store where
  "example_store =
     \<lparr>customers = [], vehicles = [],
      services =
        [\<lparr>s_id = 1, s_name = ''Full Service'', s_description = ''Comprehensive servicing'',
          s_unit_price = Finite 200, s_vat_rate = float_0_20\<rparr>,
         \<lparr>s_id = 2, s_name = ''Interim Service'', s_description = ''Basic service'',
          s_unit_price = Finite 120, s_vat_rate = float_0_20\<rparr>],
      bookings = [], booking_items = [], misc_items = [], invoices = [],
      settings = [(''payment_terms_days'', Some ''14'')],
      sqlite_sequence = [(''services'', 2)]\<rparr>"

definition full_service_fields :: fields where
  "full_service_fields = map_of [(''first_name'', ''Ann''), (''vrm'', ''ab12 cde''), (''qty_1'', ''2'')]"

definition tow_fee_fields :: fields where
  "tow_fee_fields =
     map_of [(''custom_name_1'', ''Tow fee''), (''custom_qty_1'', ''1''), (''custom_price_1'', ''50'')]"

definition no_item_fields :: fields where
  "no_item_fields = map_of [(''first_name'', ''Bob''), (''qty_1'', ''0''), (''qty_2'', ''0'')]"

definition huge_mileage_fields :: fields where
  "huge_mileage_fields =
     map_of [(''mileage'', ''99999999999999999999''), (''qty_1'', ''0''), (''qty_2'', ''0'')]"

definition bad_date_fields :: fields where
  "bad_date_fields = map_of [(''booking_date'', ''2024-02-30''), (''qty_2'', ''1'')]"

definition cancel_first_fields :: fields where
  "cancel_first_fields = map_of [(''booking_id'', ''1'')]"

definition cancel_unknown_fields :: fields where
  "cancel_unknown_fields = map_of [(''booking_id'', ''77'')]"

definition cancel_huge_fields :: fields where
  "cancel_huge_fields = map_of [(''booking_id'', ''9223372036854775808'')]"

definition store_after_booking :: store where
  \<comment> \<open>what the first request, \<open>full_service_fields\<close>, commits\<close>
  "store_after_booking =
     \<lparr>customers =
        [\<lparr>c_id = 1, c_first_name = ''Ann'', c_last_name = [], c_phone = [], c_email = [],
          c_address = []\<rparr>],
      vehicles =
        [\<lparr>v_id = 1, v_customer_id = 1, v_vrm = ''AB12 CDE'', v_make = [], v_model = [],
          v_mileage = Some 0\<rparr>],
      services = services example_store,
      bookings =
        [\<lparr>b_id = 1, b_customer_id = 1, b_vehicle_id = 1, b_booking_date = ''2024-01-20'',
          b_notes = [], b_status = ''booked''\<rparr>],
      booking_items =
        [\<lparr>bi_id = 1, bi_booking_id = 1, bi_service_id = 1, bi_quantity = 2,
          bi_unit_price = Finite 200, bi_vat_rate = float_0_20\<rparr>],
      misc_items = [],
      invoices =
        [\<lparr>inv_id = 1, inv_booking_id = 1, inv_number = ''INV20240120-001'',
          inv_issue_date = ''2024-01-20'', inv_total_ex_vat = Finite 400,
          inv_total_vat = Finite 80, inv_total_inc = Finite 480, inv_status = ''unpaid''\<rparr>],
      settings = [(''payment_terms_days'', Some ''14'')],
      sqlite_sequence =
        [(''services'', 2), (''customers'', 1), (''vehicles'', 1), (''bookings'', 1),
         (''booking_items'', 1), (''invoices'', 1)]\<rparr>"

definition store_after_interim :: store where
  \<comment> \<open>what the request \<open>bad_date_fields\<close>, one interim service, commits on the example\<close>
  "store_after_interim =
     \<lparr>customers =
        [\<lparr>c_id = 1, c_first_name = [], c_last_name = [], c_phone = [], c_email = [],
          c_address = []\<rparr>],
      vehicles =
        [\<lparr>v_id = 1, v_customer_id = 1, v_vrm = [], v_make = [], v_model = [],
          v_mileage = Some 0\<rparr>],
      services = services example_store,
      bookings =
        [\<lparr>b_id = 1, b_customer_id = 1, b_vehicle_id = 1, b_booking_date = ''2024-01-20'',
          b_notes = [], b_status = ''booked''\<rparr>],
      booking_items =
        [\<lparr>bi_id = 1, bi_booking_id = 1, bi_service_id = 2, bi_quantity = 1,
          bi_unit_price = Finite 120, bi_vat_rate = float_0_20\<rparr>],
      misc_items = [],
      invoices =
        [\<lparr>inv_id = 1, inv_booking_id = 1, inv_number = ''INV20240120-001'',
          inv_issue_date = ''2024-01-20'', inv_total_ex_vat = Finite 120,
          inv_total_vat = Finite 24, inv_total_inc = Finite 144, inv_status = ''unpaid''\<rparr>],
      settings = [(''payment_terms_days'', Some ''14'')],
      sqlite_sequence =
        [(''services'', 2), (''customers'', 1), (''vehicles'', 1), (''bookings'', 1),
         (''booking_items'', 1), (''invoices'', 1)]\<rparr>"

definition full_service_page :: invoice_page where
  "full_service_page =
     \<lparr>pg_invoice_number = ''INV20240120-001'', pg_issue_date = ''2024-01-20'',
      pg_due_date = ''2024-02-03'', pg_next_service_date = ''2025-01-14'',
      pg_items_rows =
        [\<lparr>row_name = ''Full Service'', row_quantity = 2, row_unit_price = Finite 200,
          row_line_total_ex = Finite 400, row_line_vat = Finite 80,
          row_line_total_inc = Finite 480\<rparr>],
      pg_total_ex = Finite 400, pg_total_vat = Finite 80, pg_total_inc = Finite 480\<rparr>"

definition interim_page :: invoice_page where
  "interim_page =
     \<lparr>pg_invoice_number = ''INV20240120-001'', pg_issue_date = ''2024-01-20'',
      pg_due_date = ''2024-02-03'', pg_next_service_date = ''2024-07-18'',
      pg_items_rows =
        [\<lparr>row_name = ''Interim Service'', row_quantity = 1, row_unit_price = Finite 120,
          row_line_total_ex = Finite 120, row_line_vat = Finite 24,
          row_line_total_inc = Finite 144\<rparr>],
      pg_total_ex = Finite 120, pg_total_vat = Finite 24, pg_total_inc = Finite 144\<rparr>"


section \<open>The server over a sequence of requests\<close>

text \<open>
  A POST request as \<^verbatim>\<open>do_POST\<close> routes it, with the date of the server's clock for a
  submission. The store after a request is the committed one: a request that ends with
  an exception never reaches \<^verbatim>\<open>conn.commit()\<close> and leaves the database as it was. The
  server starts on the database \<^verbatim>\<open>init_db\<close> creates.
\<close>

datatype request = NewBooking date fields | CancelBooking fields

definition committed :: "store \<Rightarrow> py_error + store \<times> response \<Rightarrow> store" where
  "committed st r = (case r of Inl _ \<Rightarrow> st | Inr (st', _) \<Rightarrow> st')"

definition do_POST :: "store \<Rightarrow> request \<Rightarrow> store" where
  "do_POST st r =
     (case r of
        NewBooking today fs \<Rightarrow> committed st (process_new_booking today st fs)
      | CancelBooking fs \<Rightarrow> committed st (process_cancel_booking st fs))"

definition serve_all :: "request list \<Rightarrow> store" where
  "serve_all rs = foldl do_POST (init_db empty_store) rs"

text \<open>The clock shows a date of the calendar whose year has four digits.\<close>

definition clock_ok :: "request \<Rightarrow> bool" where
  "clock_ok r =
     (case r of
        NewBooking today _ \<Rightarrow> valid_date today \<and> 1000 \<le> year today
      | CancelBooking _ \<Rightarrow> True)"

text \<open>
  The pattern of an invoice number: \<^verbatim>\<open>INV\<close>, eight digits, a hyphen and a sequence of
  digits, of which the specification says there are three and the format \<^verbatim>\<open>:03d\<close> gives
  three or more.
\<close>

definition sequence_part :: "string \<Rightarrow> string" where
  "sequence_part s = drop 12 s"

definition number_pattern :: "string \<Rightarrow> bool" where
  "number_pattern s =
     (take 3 s = ''INV'' \<and> length (take 8 (drop 3 s)) = 8 \<and>
      list_all is_digit (take 8 (drop 3 s)) \<and> take 1 (drop 11 s) = ''-'' \<and>
      list_all is_digit (sequence_part s) \<and> 3 \<le> length (sequence_part s))"

definition three_digit_pattern :: "string \<Rightarrow> bool" where
  "three_digit_pattern s = (number_pattern s \<and> length (sequence_part s) = 3)"

text \<open>
  What the runs of the server keep: every invoice has a positive id that the
  \<^verbatim>\<open>AUTOINCREMENT\<close> sequence has reached, its number matches the pattern with the id as
  the sequence, the ids differ, and the sequence is the id of an invoice once there is
  one.
\<close>

definition numbered :: "store \<Rightarrow> bool" where
  "numbered st =
     (list_all (\<lambda>i. 0 < inv_id i \<and> inv_id i \<le> int (sequence_of st ''invoices'') \<and>
                    number_pattern (inv_number i) \<and>
                    sequence_part (inv_number i) = fmt_0d 3 (inv_id i)) (invoices st) \<and>
      distinct (map inv_id (invoices st)) \<and>
      (if invoices st = [] then sequence_of st ''invoices'' = 0
       else int (sequence_of st ''invoices'') \<in> set (map inv_id (invoices st))))"

definition two_bookings :: "request list" where
  "two_bookings =
     [NewBooking example_today full_service_fields, CancelBooking cancel_first_fields,
      NewBooking example_today full_service_fields]"
section \<open>Lemmas about the model\<close>

subsection \<open>Errors, sequences and inserts\<close>

lemma and_then_Inl [simp]: "and_then (Inl e) f = Inl e"
  by (simp add: and_then_def)

lemma and_then_Inr [simp]: "and_then (Inr x) f = f x"
  by (simp add: and_then_def)

lemma and_then_eq_Inr: "and_then r f = Inr y \<longleftrightarrow> (\<exists>x. r = Inr x \<and> f x = Inr y)"
  by (cases r) auto

lemma int_mul_float_Inr: "int_mul_float q p = Inr x \<Longrightarrow> x = line_ex q p"
  by (auto simp: int_mul_float_def float_of_int_def line_ex_def split: pyfloat.splits sum.splits)

lemma sequence_of_update [simp]:
  "sequence_of (st\<lparr>customers := cs\<rparr>) t = sequence_of st t"
  "sequence_of (st\<lparr>vehicles := vs\<rparr>) t = sequence_of st t"
  "sequence_of (st\<lparr>services := ss\<rparr>) t = sequence_of st t"
  "sequence_of (st\<lparr>bookings := bs\<rparr>) t = sequence_of st t"
  "sequence_of (st\<lparr>booking_items := bis\<rparr>) t = sequence_of st t"
  "sequence_of (st\<lparr>misc_items := ms\<rparr>) t = sequence_of st t"
  "sequence_of (st\<lparr>invoices := is\<rparr>) t = sequence_of st t"
  "sequence_of (st\<lparr>settings := se\<rparr>) t = sequence_of st t"
  by (simp_all add: sequence_of_def)

lemma sequence_of_bump [simp]:
  "sequence_of (bump_sequence t n st) t' = (if t' = t then nat n else sequence_of st t')"
  by (simp add: sequence_of_def bump_sequence_def update_conv')

lemma bump_sequence_fields [simp]:
  "customers (bump_sequence t n st) = customers st"
  "vehicles (bump_sequence t n st) = vehicles st"
  "services (bump_sequence t n st) = services st"
  "bookings (bump_sequence t n st) = bookings st"
  "booking_items (bump_sequence t n st) = booking_items st"
  "misc_items (bump_sequence t n st) = misc_items st"
  "invoices (bump_sequence t n st) = invoices st"
  "settings (bump_sequence t n st) = settings st"
  by (simp_all add: bump_sequence_def)

lemma lines_ex_simps [simp]:
  "lines_ex [] = []" "lines_ex ((q, p, v) # ls) = line_ex q p # lines_ex ls"
  "lines_ex (xs @ ys) = lines_ex xs @ lines_ex ys"
  by (simp_all add: lines_ex_def)

lemma lines_vat_simps [simp]:
  "lines_vat [] = []" "lines_vat ((q, p, v) # ls) = line_vat q p v # lines_vat ls"
  "lines_vat (xs @ ys) = lines_vat xs @ lines_vat ys"
  by (simp_all add: lines_vat_def)

lemma frame_bi_refl [simp]: "frame_bi st st"
  by (simp add: frame_bi_def)

lemma frame_bi_trans: "frame_bi a b \<Longrightarrow> frame_bi b c \<Longrightarrow> frame_bi a c"
  by (simp add: frame_bi_def)

lemma frame_mi_refl [simp]: "frame_mi st st"
  by (simp add: frame_mi_def)

lemma frame_mi_trans: "frame_mi a b \<Longrightarrow> frame_mi b c \<Longrightarrow> frame_mi a c"
  by (simp add: frame_mi_def)

lemma insert_booking_item_Inr:
  assumes "insert_booking_item st bid sid q p v = Inr st'"
  shows "\<exists>n. booking_items st' = booking_items st @
            [\<lparr>bi_id = n, bi_booking_id = bid, bi_service_id = sid, bi_quantity = q,
              bi_unit_price = p, bi_vat_rate = v\<rparr>] \<and> frame_bi st st'"
  using assms
  by (auto simp: insert_booking_item_def bind_int_def not_null_real_def frame_bi_def Let_def
      split: if_splits)

lemma insert_misc_item_Inr:
  assumes "insert_misc_item st bid name q p v = Inr st'"
  shows "\<exists>n. misc_items st' = misc_items st @
            [\<lparr>mi_id = n, mi_booking_id = bid, mi_name = name, mi_quantity = q,
              mi_unit_price = p, mi_vat_rate = v\<rparr>] \<and> frame_mi st st'"
  using assms
  by (auto simp: insert_misc_item_def bind_int_def not_null_real_def frame_mi_def Let_def
      split: if_splits)

subsection \<open>The two loops of \<^verbatim>\<open>process_new_booking\<close>\<close>

lemma add_services_effect:
  assumes "add_services fs bid svcs (st, a, b) = Inr (st', a', b')"
  shows "\<exists>rows. booking_items st' = booking_items st @ rows \<and>
           map (\<lambda>r. (bi_booking_id r, bi_service_id r, booking_item_line r)) rows =
             [(bid, s_id s, qty_of fs s, s_unit_price s, s_vat_rate s). s \<leftarrow> svcs, 0 < qty_of fs s] \<and>
           a' = foldl fadd a (lines_ex (map booking_item_line rows)) \<and>
           b' = foldl fadd b (lines_vat (map booking_item_line rows)) \<and>
           frame_bi st st'"
  using assms
proof (induction svcs arbitrary: st a b)
  case Nil
  then show ?case by simp
next
  case (Cons svc svcs)
  show ?case
  proof (cases "0 < qty_of fs svc")
    case False
    with Cons.prems have "add_services fs bid svcs (st, a, b) = Inr (st', a', b')"
      by (simp add: qty_of_def Let_def)
    from Cons.IH [OF this] False show ?thesis by simp
  next
    case True
    with Cons.prems obtain st1 lt where
      ins: "insert_booking_item st bid (s_id svc) (qty_of fs svc) (s_unit_price svc) (s_vat_rate svc) = Inr st1"
      and mul: "int_mul_float (qty_of fs svc) (s_unit_price svc) = Inr lt"
      and rest: "add_services fs bid svcs (st1, fadd a lt, fadd b (fmul lt (s_vat_rate svc))) = Inr (st', a', b')"
      by (auto simp: qty_of_def Let_def and_then_eq_Inr)
    from insert_booking_item_Inr [OF ins] obtain n where
      st1: "booking_items st1 = booking_items st @
            [\<lparr>bi_id = n, bi_booking_id = bid, bi_service_id = s_id svc, bi_quantity = qty_of fs svc,
              bi_unit_price = s_unit_price svc, bi_vat_rate = s_vat_rate svc\<rparr>]"
      and fr1: "frame_bi st st1"
      by blast
    from Cons.IH [OF rest] obtain rows where
      r: "booking_items st' = booking_items st1 @ rows"
        "map (\<lambda>r. (bi_booking_id r, bi_service_id r, booking_item_line r)) rows =
             [(bid, s_id s, qty_of fs s, s_unit_price s, s_vat_rate s). s \<leftarrow> svcs, 0 < qty_of fs s]"
        "a' = foldl fadd (fadd a lt) (lines_ex (map booking_item_line rows))"
        "b' = foldl fadd (fadd b (fmul lt (s_vat_rate svc))) (lines_vat (map booking_item_line rows))"
        "frame_bi st1 st'"
      by blast
    have lt: "lt = line_ex (qty_of fs svc) (s_unit_price svc)"
      using mul by (rule int_mul_float_Inr)
    show ?thesis
      apply (rule exI [of _ "\<lparr>bi_id = n, bi_booking_id = bid, bi_service_id = s_id svc,
              bi_quantity = qty_of fs svc,
              bi_unit_price = s_unit_price svc, bi_vat_rate = s_vat_rate svc\<rparr> # rows"])
      using r st1 True frame_bi_trans [OF fr1 r(5)]
      by (simp add: lt booking_item_line_def [of "\<lparr>bi_id = n, bi_booking_id = bid,
              bi_service_id = s_id svc, bi_quantity = qty_of fs svc,
              bi_unit_price = s_unit_price svc, bi_vat_rate = s_vat_rate svc\<rparr>"] line_vat_def)
  qed
qed

lemma add_custom_items_effect:
  assumes "add_custom_items fs bid is (st, a, b) = Inr (st', a', b')"
  shows "\<exists>rows. misc_items st' = misc_items st @ rows \<and>
           map (\<lambda>r. (mi_booking_id r, mi_name r, misc_item_line r)) rows =
             [(bid, custom_name fs i, custom_qty fs i, custom_price fs i, custom_vat fs i).
                i \<leftarrow> is, custom_kept fs i] \<and>
           a' = foldl fadd a (lines_ex (map misc_item_line rows)) \<and>
           b' = foldl fadd b (lines_vat (map misc_item_line rows)) \<and>
           frame_mi st st'"
  using assms
proof (induction "is" arbitrary: st a b)
  case Nil
  then show ?case by simp
next
  case (Cons i "is")
  show ?case
  proof (cases "custom_kept fs i")
    case False
    with Cons.prems have "add_custom_items fs bid is (st, a, b) = Inr (st', a', b')"
      by (auto simp: custom_kept_def custom_name_def custom_qty_def custom_price_def Let_def
          split: if_splits)
    from Cons.IH [OF this] False show ?thesis by simp
  next
    case True
    with Cons.prems obtain st1 lt where
      ins: "insert_misc_item st bid (custom_name fs i) (custom_qty fs i) (custom_price fs i)
              (custom_vat fs i) = Inr st1"
      and mul: "int_mul_float (custom_qty fs i) (custom_price fs i) = Inr lt"
      and rest: "add_custom_items fs bid is
                   (st1, fadd a lt, fadd b (fmul lt (custom_vat fs i))) = Inr (st', a', b')"
      by (auto simp: custom_kept_def custom_name_def custom_qty_def custom_price_def
          custom_vat_def Let_def and_then_eq_Inr)
    from insert_misc_item_Inr [OF ins] obtain n where
      st1: "misc_items st1 = misc_items st @
            [\<lparr>mi_id = n, mi_booking_id = bid, mi_name = custom_name fs i,
              mi_quantity = custom_qty fs i, mi_unit_price = custom_price fs i,
              mi_vat_rate = custom_vat fs i\<rparr>]"
      and fr1: "frame_mi st st1"
      by blast
    from Cons.IH [OF rest] obtain rows where
      r: "misc_items st' = misc_items st1 @ rows"
        "map (\<lambda>r. (mi_booking_id r, mi_name r, misc_item_line r)) rows =
             [(bid, custom_name fs i, custom_qty fs i, custom_price fs i, custom_vat fs i).
                i \<leftarrow> is, custom_kept fs i]"
        "a' = foldl fadd (fadd a lt) (lines_ex (map misc_item_line rows))"
        "b' = foldl fadd (fadd b (fmul lt (custom_vat fs i))) (lines_vat (map misc_item_line rows))"
        "frame_mi st1 st'"
      by blast
    have lt: "lt = line_ex (custom_qty fs i) (custom_price fs i)"
      using mul by (rule int_mul_float_Inr)
    show ?thesis
      apply (rule exI [of _ "\<lparr>mi_id = n, mi_booking_id = bid, mi_name = custom_name fs i,
              mi_quantity = custom_qty fs i, mi_unit_price = custom_price fs i,
              mi_vat_rate = custom_vat fs i\<rparr> # rows"])
      using r st1 True frame_mi_trans [OF fr1 r(5)]
      by (simp add: lt misc_item_line_def [of "\<lparr>mi_id = n, mi_booking_id = bid,
              mi_name = custom_name fs i,
              mi_quantity = custom_qty fs i, mi_unit_price = custom_price fs i,
              mi_vat_rate = custom_vat fs i\<rparr>"] line_vat_def)
  qed
qed

subsection \<open>The stages of \<^verbatim>\<open>process_new_booking\<close>\<close>

lemma process_new_booking_steps:
  assumes run: "process_new_booking today st fs = Inr (st', resp)"
  shows "\<exists>mv st1 cid st2 vid st3 bid st4 a b st5 tex tvat.
    insert_customer st (py_strip (field fs ''first_name'' '''')) (py_strip (field fs ''last_name'' ''''))
       (py_strip (field fs ''phone'' '''')) (py_strip (field fs ''email'' ''''))
       (py_strip (field fs ''address'' '''')) = (st1, cid) \<and>
    mileage_of (py_strip (field fs ''mileage'' ''0'')) = Inr mv \<and>
    insert_vehicle st1 cid (py_upper (py_strip (field fs ''vrm'' ''''))) (py_strip (field fs ''make'' ''''))
       (py_strip (field fs ''model'' '''')) mv = Inr (st2, vid) \<and>
    insert_booking st2 cid vid (booking_date_of today fs) (py_strip (field fs ''notes'' '''')) ''booked''
       = (st3, bid) \<and>
    add_services fs bid (services st3) (st3, Finite 0, Finite 0) = Inr (st4, a, b) \<and>
    add_custom_items fs bid range_1_4 (st4, a, b) = Inr (st5, tex, tvat) \<and>
    (if fgt0 tex
     then \<exists>iid. insert_invoice st5 bid (next_invoice_number today st) (isoformat today)
                  tex tvat (fadd tex tvat) ''unpaid'' = Inr (st', iid) \<and>
                resp = (if iid \<noteq> 0 then Redirect303 (''/invoice/'' @ py_str iid)
                        else Redirect303 ''/'')
     else st' = st5 \<and> resp = Redirect303 ''/'')"
proof -
  note defs = process_new_booking_def Let_def
  obtain st1 cid where c:
    "insert_customer st (py_strip (field fs ''first_name'' '''')) (py_strip (field fs ''last_name'' ''''))
       (py_strip (field fs ''phone'' '''')) (py_strip (field fs ''email'' ''''))
       (py_strip (field fs ''address'' '''')) = (st1, cid)"
    by fastforce
  obtain mv where m: "mileage_of (py_strip (field fs ''mileage'' ''0'')) = Inr mv"
  proof (cases "mileage_of (py_strip (field fs ''mileage'' ''0''))")
    case (Inl e)
    have "process_new_booking today st fs = Inl e"
      unfolding defs c Inl by simp
    with run show ?thesis by simp
  next
    case (Inr x)
    then show ?thesis by (rule that)
  qed
  obtain st2 vid where v:
    "insert_vehicle st1 cid (py_upper (py_strip (field fs ''vrm'' ''''))) (py_strip (field fs ''make'' ''''))
       (py_strip (field fs ''model'' '''')) mv = Inr (st2, vid)"
  proof (cases "insert_vehicle st1 cid (py_upper (py_strip (field fs ''vrm'' '''')))
          (py_strip (field fs ''make'' '''')) (py_strip (field fs ''model'' '''')) mv")
    case (Inl e)
    have "process_new_booking today st fs = Inl e"
      unfolding defs c m by (simp add: Inl)
    with run show ?thesis by simp
  next
    case (Inr x)
    then show ?thesis using that by (cases x) simp
  qed
  obtain st3 bid where b:
    "insert_booking st2 cid vid (booking_date_of today fs) (py_strip (field fs ''notes'' '''')) ''booked''
       = (st3, bid)"
    by fastforce
  obtain st4 a0 b0 where s:
    "add_services fs bid (services st3) (st3, Finite 0, Finite 0) = Inr (st4, a0, b0)"
  proof (cases "add_services fs bid (services st3) (st3, Finite 0, Finite 0)")
    case (Inl e)
    have "process_new_booking today st fs = Inl e"
      unfolding defs c m by (simp add: v b Inl)
    with run show ?thesis by simp
  next
    case (Inr x)
    then show ?thesis using that by (cases x) simp
  qed
  obtain st5 tex tvat where k:
    "add_custom_items fs bid range_1_4 (st4, a0, b0) = Inr (st5, tex, tvat)"
  proof (cases "add_custom_items fs bid range_1_4 (st4, a0, b0)")
    case (Inl e)
    have "process_new_booking today st fs = Inl e"
      unfolding defs c m by (simp add: v b s Inl)
    with run show ?thesis by simp
  next
    case (Inr x)
    then show ?thesis using that by (cases x) simp
  qed
  have unfolded: "process_new_booking today st fs =
     (if fgt0 tex
      then and_then (insert_invoice st5 bid (next_invoice_number today st) (isoformat today)
                       tex tvat (fadd tex tvat) ''unpaid'') (\<lambda>(st6, invoice_id).
             Inr (st6, if invoice_id \<noteq> 0
                       then Redirect303 (''/invoice/'' @ py_str invoice_id)
                       else Redirect303 ''/''))
      else Inr (st5, Redirect303 ''/''))"
    unfolding defs c m by (simp add: v b s k)
  have fin: "if fgt0 tex
     then \<exists>iid. insert_invoice st5 bid (next_invoice_number today st) (isoformat today)
                  tex tvat (fadd tex tvat) ''unpaid'' = Inr (st', iid) \<and>
                resp = (if iid \<noteq> 0 then Redirect303 (''/invoice/'' @ py_str iid)
                        else Redirect303 ''/'')
     else st' = st5 \<and> resp = Redirect303 ''/''"
  proof (cases "fgt0 tex")
    case False
    with run unfolded show ?thesis by simp
  next
    case True
    show ?thesis
    proof (cases "insert_invoice st5 bid (next_invoice_number today st) (isoformat today)
                  tex tvat (fadd tex tvat) ''unpaid''")
      case (Inl e)
      with run unfolded True show ?thesis by simp
    next
      case (Inr x)
      obtain st6 iid where x: "x = (st6, iid)" by fastforce
      from run unfolded True Inr x have "st6 = st'"
        and "resp = (if iid \<noteq> 0 then Redirect303 (''/invoice/'' @ py_str iid)
                        else Redirect303 ''/'')"
        by (simp_all split: if_splits)
      with True Inr x show ?thesis by simp
    qed
  qed
  from c m v b s k fin show ?thesis by blast
qed

lemma next_rowid_pos: "0 < next_rowid st t ids"
proof -
  have "int n \<le> foldr max ids (int n)" for n
    by (induction ids) auto
  then show ?thesis
    unfolding next_rowid_def by (smt (verit) of_nat_0_le_iff)
qed

lemma insert_customer_effect:
  assumes "insert_customer st a b c d e = (st1, cid)"
  shows "\<exists>row. customers st1 = customers st @ [row] \<and> c_id row = cid \<and>
     vehicles st1 = vehicles st \<and> services st1 = services st \<and> bookings st1 = bookings st \<and>
     booking_items st1 = booking_items st \<and> misc_items st1 = misc_items st \<and>
     invoices st1 = invoices st \<and> settings st1 = settings st \<and>
     (\<forall>t. t \<noteq> ''customers'' \<longrightarrow> sequence_of st1 t = sequence_of st t)"
  using assms by (auto simp: insert_customer_def Let_def)

lemma insert_vehicle_effect:
  assumes "insert_vehicle st cid a b c d = Inr (st1, vid)"
  shows "\<exists>row. vehicles st1 = vehicles st @ [row] \<and> v_id row = vid \<and>
     customers st1 = customers st \<and> services st1 = services st \<and> bookings st1 = bookings st \<and>
     booking_items st1 = booking_items st \<and> misc_items st1 = misc_items st \<and>
     invoices st1 = invoices st \<and> settings st1 = settings st \<and>
     (\<forall>t. t \<noteq> ''vehicles'' \<longrightarrow> sequence_of st1 t = sequence_of st t)"
  using assms by (auto simp: insert_vehicle_def Let_def and_then_eq_Inr)

lemma insert_booking_effect:
  assumes "insert_booking st cid vid d n s = (st1, bid)"
  shows "bid = new_booking_id st \<and>
     bookings st1 = bookings st @
       [\<lparr>b_id = bid, b_customer_id = cid, b_vehicle_id = vid, b_booking_date = d,
         b_notes = n, b_status = s\<rparr>] \<and>
     customers st1 = customers st \<and> vehicles st1 = vehicles st \<and> services st1 = services st \<and>
     booking_items st1 = booking_items st \<and> misc_items st1 = misc_items st \<and>
     invoices st1 = invoices st \<and> settings st1 = settings st \<and>
     (\<forall>t. t \<noteq> ''bookings'' \<longrightarrow> sequence_of st1 t = sequence_of st t)"
  using assms by (auto simp: insert_booking_def new_booking_id_def Let_def)

lemma insert_invoice_effect:
  assumes "insert_invoice st bid num issue tex tvat tinc status = Inr (st1, iid)"
  shows "iid = new_invoice_id st \<and>
     invoices st1 = invoices st @
       [\<lparr>inv_id = iid, inv_booking_id = bid, inv_number = num, inv_issue_date = issue,
         inv_total_ex_vat = tex, inv_total_vat = tvat, inv_total_inc = tinc,
         inv_status = status\<rparr>] \<and>
     customers st1 = customers st \<and> vehicles st1 = vehicles st \<and> services st1 = services st \<and>
     bookings st1 = bookings st \<and>
     booking_items st1 = booking_items st \<and> misc_items st1 = misc_items st \<and>
     settings st1 = settings st \<and> sequence_of st1 ''invoices'' = nat iid \<and>
     (\<forall>t. t \<noteq> ''invoices'' \<longrightarrow> sequence_of st1 t = sequence_of st t)"
  using assms
  by (auto simp: insert_invoice_def new_invoice_id_def Let_def and_then_eq_Inr)

lemma new_invoice_id_cong:
  "invoices st1 = invoices st \<Longrightarrow> sequence_of st1 ''invoices'' = sequence_of st ''invoices''
   \<Longrightarrow> new_invoice_id st1 = new_invoice_id st"
  by (simp add: new_invoice_id_def next_rowid_def)

lemma float_sum_append: "foldl fadd (float_sum xs) ys = float_sum (xs @ ys)"
  by (simp add: float_sum_def)

lemma tagged_comprehension:
  "[(tag, h s). s \<leftarrow> xs, P s] = map (\<lambda>l. (tag, l)) [h s. s \<leftarrow> xs, P s]"
  by (induction xs) auto

lemma process_new_booking_effect:
  assumes run: "process_new_booking today st fs = Inr (st', resp)"
  shows "\<exists>c v bis mis.
     customers st' = customers st @ [c] \<and> vehicles st' = vehicles st @ [v] \<and>
     services st' = services st \<and> settings st' = settings st \<and>
     bookings st' = bookings st @
       [\<lparr>b_id = new_booking_id st, b_customer_id = c_id c, b_vehicle_id = v_id v,
         b_booking_date = booking_date_of today fs,
         b_notes = py_strip (field fs ''notes'' ''''), b_status = ''booked''\<rparr>] \<and>
     booking_items st' = booking_items st @ bis \<and>
     map (\<lambda>r. (bi_booking_id r, bi_service_id r, booking_item_line r)) bis =
       map (\<lambda>l. (new_booking_id st, l)) (service_lines fs st) \<and>
     misc_items st' = misc_items st @ mis \<and>
     map (\<lambda>r. (mi_booking_id r, mi_name r, misc_item_line r)) mis =
       map (\<lambda>l. (new_booking_id st, l)) (custom_lines fs) \<and>
     (if fgt0 (float_sum (lines_ex (booking_lines fs st)))
      then invoices st' = invoices st @
             [\<lparr>inv_id = new_invoice_id st, inv_booking_id = new_booking_id st,
               inv_number = next_invoice_number today st, inv_issue_date = isoformat today,
               inv_total_ex_vat = float_sum (lines_ex (booking_lines fs st)),
               inv_total_vat = float_sum (lines_vat (booking_lines fs st)),
               inv_total_inc = fadd (float_sum (lines_ex (booking_lines fs st)))
                                    (float_sum (lines_vat (booking_lines fs st))),
               inv_status = ''unpaid''\<rparr>] \<and>
           resp = Redirect303 (''/invoice/'' @ py_str (new_invoice_id st)) \<and>
           sequence_of st' ''invoices'' = nat (new_invoice_id st)
      else invoices st' = invoices st \<and> resp = Redirect303 ''/'' \<and>
           sequence_of st' ''invoices'' = sequence_of st ''invoices'')"
proof -
  from process_new_booking_steps [OF run]
  obtain mv st1 cid st2 vid st3 bid st4 a b st5 tex tvat where
    c: "insert_customer st (py_strip (field fs ''first_name'' '''')) (py_strip (field fs ''last_name'' ''''))
       (py_strip (field fs ''phone'' '''')) (py_strip (field fs ''email'' ''''))
       (py_strip (field fs ''address'' '''')) = (st1, cid)"
    and v: "insert_vehicle st1 cid (py_upper (py_strip (field fs ''vrm'' ''''))) (py_strip (field fs ''make'' ''''))
       (py_strip (field fs ''model'' '''')) mv = Inr (st2, vid)"
    and bk: "insert_booking st2 cid vid (booking_date_of today fs) (py_strip (field fs ''notes'' '''')) ''booked''
       = (st3, bid)"
    and s: "add_services fs bid (services st3) (st3, Finite 0, Finite 0) = Inr (st4, a, b)"
    and k: "add_custom_items fs bid range_1_4 (st4, a, b) = Inr (st5, tex, tvat)"
    and fin: "if fgt0 tex
     then \<exists>iid. insert_invoice st5 bid (next_invoice_number today st) (isoformat today)
                  tex tvat (fadd tex tvat) ''unpaid'' = Inr (st', iid) \<and>
                resp = (if iid \<noteq> 0 then Redirect303 (''/invoice/'' @ py_str iid)
                        else Redirect303 ''/'')
     else st' = st5 \<and> resp = Redirect303 ''/''"
    by blast
  from insert_customer_effect [OF c] obtain crow where
    c1: "customers st1 = customers st @ [crow]" "c_id crow = cid"
      "vehicles st1 = vehicles st" "services st1 = services st" "bookings st1 = bookings st"
      "booking_items st1 = booking_items st" "misc_items st1 = misc_items st"
      "invoices st1 = invoices st" "settings st1 = settings st"
      "sequence_of st1 ''invoices'' = sequence_of st ''invoices''"
      "sequence_of st1 ''bookings'' = sequence_of st ''bookings''"
    by auto
  from insert_vehicle_effect [OF v] obtain vrow where
    v1: "vehicles st2 = vehicles st1 @ [vrow]" "v_id vrow = vid"
      "customers st2 = customers st1" "services st2 = services st1" "bookings st2 = bookings st1"
      "booking_items st2 = booking_items st1" "misc_items st2 = misc_items st1"
      "invoices st2 = invoices st1" "settings st2 = settings st1"
      "sequence_of st2 ''invoices'' = sequence_of st1 ''invoices''"
      "sequence_of st2 ''bookings'' = sequence_of st1 ''bookings''"
    by auto
  from insert_booking_effect [OF bk] have
    b1: "bid = new_booking_id st2"
      "bookings st3 = bookings st2 @
       [\<lparr>b_id = bid, b_customer_id = cid, b_vehicle_id = vid,
         b_booking_date = booking_date_of today fs,
         b_notes = py_strip (field fs ''notes'' ''''), b_status = ''booked''\<rparr>]"
      "customers st3 = customers st2" "vehicles st3 = vehicles st2" "services st3 = services st2"
      "booking_items st3 = booking_items st2" "misc_items st3 = misc_items st2"
      "invoices st3 = invoices st2" "settings st3 = settings st2"
      "sequence_of st3 ''invoices'' = sequence_of st2 ''invoices''"
    by auto
  have bid: "bid = new_booking_id st"
    using b1(1) v1 c1 by (simp add: new_booking_id_def next_rowid_def)
  from add_services_effect [OF s] obtain bis where
    s1: "booking_items st4 = booking_items st3 @ bis"
      "map (\<lambda>r. (bi_booking_id r, bi_service_id r, booking_item_line r)) bis =
         [(bid, s_id s, qty_of fs s, s_unit_price s, s_vat_rate s). s \<leftarrow> services st3, 0 < qty_of fs s]"
      "a = foldl fadd (Finite 0) (lines_ex (map booking_item_line bis))"
      "b = foldl fadd (Finite 0) (lines_vat (map booking_item_line bis))"
      "frame_bi st3 st4"
    by blast
  from add_custom_items_effect [OF k] obtain mis where
    k1: "misc_items st5 = misc_items st4 @ mis"
      "map (\<lambda>r. (mi_booking_id r, mi_name r, misc_item_line r)) mis =
             [(bid, custom_name fs i, custom_qty fs i, custom_price fs i, custom_vat fs i).
                i \<leftarrow> range_1_4, custom_kept fs i]"
      "tex = foldl fadd a (lines_ex (map misc_item_line mis))"
      "tvat = foldl fadd b (lines_vat (map misc_item_line mis))"
      "frame_mi st4 st5"
    by blast
  have svc: "services st3 = services st"
    using b1 v1 c1 by simp
  have l1: "map booking_item_line bis = map snd (service_lines fs st)"
  proof -
    have "map booking_item_line bis =
        map (\<lambda>x. snd (snd x)) (map (\<lambda>r. (bi_booking_id r, bi_service_id r, booking_item_line r)) bis)"
      by (simp add: comp_def)
    also have "\<dots> = map snd (service_lines fs st)"
      unfolding s1(2) svc service_lines_def tagged_comprehension [where tag = bid] by (simp add: comp_def)
    finally show ?thesis .
  qed
  have l2: "map misc_item_line mis = map snd (custom_lines fs)"
  proof -
    have "map misc_item_line mis =
        map (\<lambda>x. snd (snd x)) (map (\<lambda>r. (mi_booking_id r, mi_name r, misc_item_line r)) mis)"
      by (simp add: comp_def)
    also have "\<dots> = map snd (custom_lines fs)"
      unfolding k1(2) custom_lines_def tagged_comprehension [where tag = bid] by (simp add: comp_def)
    finally show ?thesis .
  qed
  have tex: "tex = float_sum (lines_ex (booking_lines fs st))"
    unfolding k1(3) s1(3) booking_lines_def l1 l2
    by (simp add: float_sum_def)
  have tvat: "tvat = float_sum (lines_vat (booking_lines fs st))"
    unfolding k1(4) s1(4) booking_lines_def l1 l2
    by (simp add: float_sum_def)
  have m1: "map (\<lambda>r. (bi_booking_id r, bi_service_id r, booking_item_line r)) bis =
       map (\<lambda>l. (new_booking_id st, l)) (service_lines fs st)"
    unfolding s1(2) svc service_lines_def bid by (rule tagged_comprehension)
  have m2: "map (\<lambda>r. (mi_booking_id r, mi_name r, misc_item_line r)) mis =
       map (\<lambda>l. (new_booking_id st, l)) (custom_lines fs)"
    unfolding k1(2) custom_lines_def bid by (rule tagged_comprehension)
  have st5: "customers st5 = customers st @ [crow]" "vehicles st5 = vehicles st @ [vrow]"
    "services st5 = services st" "settings st5 = settings st"
    "bookings st5 = bookings st @
       [\<lparr>b_id = new_booking_id st, b_customer_id = c_id crow, b_vehicle_id = v_id vrow,
         b_booking_date = booking_date_of today fs,
         b_notes = py_strip (field fs ''notes'' ''''), b_status = ''booked''\<rparr>]"
    "booking_items st5 = booking_items st @ bis"
    "misc_items st5 = misc_items st @ mis"
    "invoices st5 = invoices st"
    "sequence_of st5 ''invoices'' = sequence_of st ''invoices''"
    using c1 v1 b1 s1(1,5) k1(1,5) bid
    by (simp_all add: frame_bi_def frame_mi_def)
  show ?thesis
  proof (cases "fgt0 tex")
    case False
    with fin have "st' = st5" "resp = Redirect303 ''/''" by simp_all
    with st5 m1 m2 False tex show ?thesis
      by (intro exI [of _ crow] exI [of _ vrow] exI [of _ bis] exI [of _ mis]) simp
  next
    case True
    with fin obtain iid where
      ins: "insert_invoice st5 bid (next_invoice_number today st) (isoformat today)
                  tex tvat (fadd tex tvat) ''unpaid'' = Inr (st', iid)"
      and resp: "resp = (if iid \<noteq> 0 then Redirect303 (''/invoice/'' @ py_str iid)
                        else Redirect303 ''/'')"
      by auto
    have "new_invoice_id st5 = new_invoice_id st"
      using st5 by (intro new_invoice_id_cong) simp_all
    with insert_invoice_effect [OF ins] have iid: "iid = new_invoice_id st"
      by simp
    have "0 < iid"
      unfolding iid new_invoice_id_def by (rule next_rowid_pos)
    with resp have resp': "resp = Redirect303 (''/invoice/'' @ py_str (new_invoice_id st))"
      by (simp add: iid)
    from insert_invoice_effect [OF ins] st5 m1 m2 True tex tvat resp' iid bid show ?thesis
      by (intro exI [of _ crow] exI [of _ vrow] exI [of _ bis] exI [of _ mis]) simp
  qed
qed

subsection \<open>When a submission is refused\<close>

lemma isl_and_then: "isl (and_then r f) = (isl r \<or> (\<exists>x. r = Inr x \<and> isl (f x)))"
  by (cases r) auto

lemma insert_booking_item_isl:
  "isl (insert_booking_item st bid sid q p v) = (\<not> sqlite_int q \<or> p = NaN \<or> v = NaN)"
  by (simp add: insert_booking_item_def bind_int_def not_null_real_def Let_def)

lemma insert_misc_item_isl:
  "isl (insert_misc_item st bid n q p v) = (\<not> sqlite_int q \<or> p = NaN \<or> v = NaN)"
  by (simp add: insert_misc_item_def bind_int_def not_null_real_def Let_def)

lemma int_mul_float_isl: "isl (int_mul_float q p) = isl (float_of_int q)"
  by (simp add: int_mul_float_def split: sum.splits)

lemma add_services_isl:
  "isl (add_services fs bid svcs (st, a, b)) =
     list_ex line_refused [(qty_of fs s, s_unit_price s, s_vat_rate s). s \<leftarrow> svcs, 0 < qty_of fs s]"
proof (induction svcs arbitrary: st a b)
  case Nil
  show ?case by simp
next
  case (Cons svc svcs)
  show ?case
  proof (cases "0 < qty_of fs svc")
    case False
    then show ?thesis using Cons.IH by (simp add: qty_of_def Let_def)
  next
    case True
    have step: "add_services fs bid (svc # svcs) (st, a, b) =
        and_then (insert_booking_item st bid (s_id svc) (qty_of fs svc)
                          (s_unit_price svc) (s_vat_rate svc)) (\<lambda>st'.
              and_then (int_mul_float (qty_of fs svc) (s_unit_price svc)) (\<lambda>line_total.
                add_services fs bid svcs
                     (st', fadd a line_total, fadd b (fmul line_total (s_vat_rate svc)))))"
      using True by (simp add: qty_of_def Let_def)
    show ?thesis
    proof (cases "insert_booking_item st bid (s_id svc) (qty_of fs svc)
                          (s_unit_price svc) (s_vat_rate svc)")
      case (Inl e)
      with insert_booking_item_isl [of st bid "s_id svc" "qty_of fs svc" "s_unit_price svc" "s_vat_rate svc"]
      have "\<not> sqlite_int (qty_of fs svc) \<or> s_unit_price svc = NaN \<or> s_vat_rate svc = NaN"
        by simp
      then show ?thesis
        unfolding step Inl using True by (auto simp: line_refused_def)
    next
      case ins: (Inr st1)
      with insert_booking_item_isl [of st bid "s_id svc" "qty_of fs svc" "s_unit_price svc" "s_vat_rate svc"]
      have ok: "sqlite_int (qty_of fs svc)" "s_unit_price svc \<noteq> NaN" "s_vat_rate svc \<noteq> NaN"
        by simp_all
      show ?thesis
      proof (cases "int_mul_float (qty_of fs svc) (s_unit_price svc)")
        case (Inl e)
        with int_mul_float_isl [of "qty_of fs svc" "s_unit_price svc"]
        have "isl (float_of_int (qty_of fs svc))" by simp
        then show ?thesis
          unfolding step ins Inl using True by (simp add: line_refused_def)
      next
        case (Inr lt)
        with int_mul_float_isl [of "qty_of fs svc" "s_unit_price svc"]
        have "\<not> isl (float_of_int (qty_of fs svc))" by simp
        then show ?thesis
          unfolding step ins Inr using True ok by (simp add: line_refused_def Cons.IH)
      qed
    qed
  qed
qed

lemma add_custom_items_isl:
  "isl (add_custom_items fs bid is (st, a, b)) =
     list_ex line_refused
       [(custom_qty fs i, custom_price fs i, custom_vat fs i). i \<leftarrow> is, custom_kept fs i]"
proof (induction "is" arbitrary: st a b)
  case Nil
  show ?case by simp
next
  case (Cons i "is")
  show ?case
  proof (cases "custom_kept fs i")
    case False
    then show ?thesis using Cons.IH
      by (auto simp: custom_kept_def custom_name_def custom_qty_def custom_price_def Let_def)
  next
    case True
    have step: "add_custom_items fs bid (i # is) (st, a, b) =
        and_then (insert_misc_item st bid (custom_name fs i) (custom_qty fs i)
                               (custom_price fs i) (custom_vat fs i)) (\<lambda>st'.
                   and_then (int_mul_float (custom_qty fs i) (custom_price fs i)) (\<lambda>line_total.
                     add_custom_items fs bid is
                          (st', fadd a line_total, fadd b (fmul line_total (custom_vat fs i)))))"
      using True
      by (simp add: custom_kept_def custom_name_def custom_qty_def custom_price_def
          custom_vat_def Let_def)
    show ?thesis
    proof (cases "insert_misc_item st bid (custom_name fs i) (custom_qty fs i)
                               (custom_price fs i) (custom_vat fs i)")
      case (Inl e)
      with insert_misc_item_isl [of st bid "custom_name fs i" "custom_qty fs i" "custom_price fs i" "custom_vat fs i"]
      have "\<not> sqlite_int (custom_qty fs i) \<or> custom_price fs i = NaN \<or> custom_vat fs i = NaN"
        by simp
      then show ?thesis
        unfolding step Inl using True by (auto simp: line_refused_def)
    next
      case ins: (Inr st1)
      with insert_misc_item_isl [of st bid "custom_name fs i" "custom_qty fs i" "custom_price fs i" "custom_vat fs i"]
      have ok: "sqlite_int (custom_qty fs i)" "custom_price fs i \<noteq> NaN" "custom_vat fs i \<noteq> NaN"
        by simp_all
      show ?thesis
      proof (cases "int_mul_float (custom_qty fs i) (custom_price fs i)")
        case (Inl e)
        with int_mul_float_isl [of "custom_qty fs i" "custom_price fs i"]
        have "isl (float_of_int (custom_qty fs i))" by simp
        then show ?thesis
          unfolding step ins Inl using True by (simp add: line_refused_def)
      next
        case (Inr lt)
        with int_mul_float_isl [of "custom_qty fs i" "custom_price fs i"]
        have "\<not> isl (float_of_int (custom_qty fs i))" by simp
        then show ?thesis
          unfolding step ins Inr using True ok by (simp add: line_refused_def Cons.IH)
      qed
    qed
  qed
qed

lemma insert_vehicle_isl:
  "isl (insert_vehicle st cid a b c mv) = (case mv of None \<Rightarrow> False | Some m \<Rightarrow> \<not> sqlite_int m)"
  by (simp add: insert_vehicle_def bind_int_def Let_def split: option.splits)

lemma insert_invoice_isl:
  "isl (insert_invoice st bid num issue tex tvat tinc status) =
     (tex = NaN \<or> tvat = NaN \<or> tinc = NaN)"
  by (simp add: insert_invoice_def not_null_real_def Let_def)

lemma loop_totals:
  assumes s: "add_services fs bid (services st) (st3, Finite 0, Finite 0) = Inr (st4, a, b)"
    and k: "add_custom_items fs bid range_1_4 (st4, a, b) = Inr (st5, tex, tvat)"
  shows "tex = float_sum (lines_ex (booking_lines fs st))"
    and "tvat = float_sum (lines_vat (booking_lines fs st))"
proof -
  from add_services_effect [OF s] obtain bis where
    s1: "map (\<lambda>r. (bi_booking_id r, bi_service_id r, booking_item_line r)) bis =
         [(bid, s_id s, qty_of fs s, s_unit_price s, s_vat_rate s). s \<leftarrow> services st, 0 < qty_of fs s]"
      "a = foldl fadd (Finite 0) (lines_ex (map booking_item_line bis))"
      "b = foldl fadd (Finite 0) (lines_vat (map booking_item_line bis))"
    by blast
  from add_custom_items_effect [OF k] obtain mis where
    k1: "map (\<lambda>r. (mi_booking_id r, mi_name r, misc_item_line r)) mis =
             [(bid, custom_name fs i, custom_qty fs i, custom_price fs i, custom_vat fs i).
                i \<leftarrow> range_1_4, custom_kept fs i]"
      "tex = foldl fadd a (lines_ex (map misc_item_line mis))"
      "tvat = foldl fadd b (lines_vat (map misc_item_line mis))"
    by blast
  have l1: "map booking_item_line bis = map snd (service_lines fs st)"
  proof -
    have "map booking_item_line bis =
        map (\<lambda>x. snd (snd x)) (map (\<lambda>r. (bi_booking_id r, bi_service_id r, booking_item_line r)) bis)"
      by (simp add: comp_def)
    also have "\<dots> = map snd (service_lines fs st)"
      unfolding s1(1) service_lines_def tagged_comprehension [where tag = bid]
      by (simp add: comp_def)
    finally show ?thesis .
  qed
  have l2: "map misc_item_line mis = map snd (custom_lines fs)"
  proof -
    have "map misc_item_line mis =
        map (\<lambda>x. snd (snd x)) (map (\<lambda>r. (mi_booking_id r, mi_name r, misc_item_line r)) mis)"
      by (simp add: comp_def)
    also have "\<dots> = map snd (custom_lines fs)"
      unfolding k1(1) custom_lines_def tagged_comprehension [where tag = bid]
      by (simp add: comp_def)
    finally show ?thesis .
  qed
  show "tex = float_sum (lines_ex (booking_lines fs st))"
    unfolding k1(2) s1(2) booking_lines_def l1 l2 by (simp add: float_sum_def)
  show "tvat = float_sum (lines_vat (booking_lines fs st))"
    unfolding k1(3) s1(3) booking_lines_def l1 l2 by (simp add: float_sum_def)
qed

lemma map_snd_comprehension:
  "map snd [(f s, g s). s \<leftarrow> xs, P s] = [g s. s \<leftarrow> xs, P s]"
  by (induction xs) auto

lemma service_lines_snd:
  "map snd (service_lines fs st) =
     [(qty_of fs s, s_unit_price s, s_vat_rate s). s \<leftarrow> services st, 0 < qty_of fs s]"
  unfolding service_lines_def by (rule map_snd_comprehension)

lemma custom_lines_snd:
  "map snd (custom_lines fs) =
     [(custom_qty fs i, custom_price fs i, custom_vat fs i). i \<leftarrow> range_1_4, custom_kept fs i]"
  unfolding custom_lines_def by (rule map_snd_comprehension)

lemma fgt0_not_NaN: "fgt0 x \<Longrightarrow> x \<noteq> NaN"
  by (cases x) auto

lemma process_new_booking_isl:
  "isl (process_new_booking today st fs) = rejected st fs"
proof -
  note defs = process_new_booking_def Let_def
  obtain st1 cid where c:
    "insert_customer st (py_strip (field fs ''first_name'' '''')) (py_strip (field fs ''last_name'' ''''))
       (py_strip (field fs ''phone'' '''')) (py_strip (field fs ''email'' ''''))
       (py_strip (field fs ''address'' '''')) = (st1, cid)"
    by fastforce
  show ?thesis
  proof (cases "mileage_of (py_strip (field fs ''mileage'' ''0''))")
    case (Inl e)
    have "process_new_booking today st fs = Inl e"
      unfolding defs c Inl by simp
    then show ?thesis by (simp add: rejected_def mileage_refused_def Inl)
  next
    case m: (Inr mv)
    show ?thesis
    proof (cases "insert_vehicle st1 cid (py_upper (py_strip (field fs ''vrm'' '''')))
          (py_strip (field fs ''make'' '''')) (py_strip (field fs ''model'' '''')) mv")
      case (Inl e)
      have "process_new_booking today st fs = Inl e"
        unfolding defs c m by (simp add: Inl)
      moreover from Inl insert_vehicle_isl [of st1 cid "py_upper (py_strip (field fs ''vrm'' ''''))"
          "py_strip (field fs ''make'' '''')" "py_strip (field fs ''model'' '''')" mv]
      have "mileage_refused fs"
        by (simp add: mileage_refused_def m split: option.splits)
      ultimately show ?thesis by (simp add: rejected_def)
    next
      case (Inr x)
      obtain st2 vid where v: "insert_vehicle st1 cid (py_upper (py_strip (field fs ''vrm'' '''')))
          (py_strip (field fs ''make'' '''')) (py_strip (field fs ''model'' '''')) mv = Inr (st2, vid)"
        using Inr by (cases x) simp
      from v insert_vehicle_isl [of st1 cid "py_upper (py_strip (field fs ''vrm'' ''''))"
          "py_strip (field fs ''make'' '''')" "py_strip (field fs ''model'' '''')" mv]
      have nm: "\<not> mileage_refused fs"
        by (simp add: mileage_refused_def m split: option.splits)
      obtain st3 bid where b:
        "insert_booking st2 cid vid (booking_date_of today fs) (py_strip (field fs ''notes'' '''')) ''booked''
           = (st3, bid)"
        by fastforce
      have svc: "services st3 = services st"
        using insert_customer_effect [OF c] insert_vehicle_effect [OF v] insert_booking_effect [OF b]
        by auto
      show ?thesis
      proof (cases "add_services fs bid (services st3) (st3, Finite 0, Finite 0)")
        case (Inl e)
        have "process_new_booking today st fs = Inl e"
          unfolding defs c m by (simp add: v b Inl)
        moreover from Inl add_services_isl [of fs bid "services st3" st3 "Finite 0" "Finite 0"]
        have "list_ex line_refused (map snd (service_lines fs st))"
          by (simp add: service_lines_snd svc)
        ultimately show ?thesis by (simp add: rejected_def booking_lines_def)
      next
        case (Inr y)
        obtain st4 a0 b0 where s:
          "add_services fs bid (services st3) (st3, Finite 0, Finite 0) = Inr (st4, a0, b0)"
          using Inr by (cases y) simp
        from s add_services_isl [of fs bid "services st3" st3 "Finite 0" "Finite 0"]
        have ns: "\<not> list_ex line_refused (map snd (service_lines fs st))"
          by (simp add: service_lines_snd svc)
        show ?thesis
        proof (cases "add_custom_items fs bid range_1_4 (st4, a0, b0)")
          case (Inl e)
          have "process_new_booking today st fs = Inl e"
            unfolding defs c m by (simp add: v b s Inl)
          moreover from Inl add_custom_items_isl [of fs bid range_1_4 st4 a0 b0]
          have "list_ex line_refused (map snd (custom_lines fs))"
            by (simp add: custom_lines_snd)
          ultimately show ?thesis by (simp add: rejected_def booking_lines_def)
        next
          case (Inr z)
          obtain st5 tex tvat where k:
            "add_custom_items fs bid range_1_4 (st4, a0, b0) = Inr (st5, tex, tvat)"
            using Inr by (cases z) simp
          from k add_custom_items_isl [of fs bid range_1_4 st4 a0 b0]
          have nk: "\<not> list_ex line_refused (map snd (custom_lines fs))"
            by (simp add: custom_lines_snd)
          have unfolded: "process_new_booking today st fs =
             (if fgt0 tex
              then and_then (insert_invoice st5 bid (next_invoice_number today st) (isoformat today)
                               tex tvat (fadd tex tvat) ''unpaid'') (\<lambda>(st6, invoice_id).
                     Inr (st6, if invoice_id \<noteq> 0
                               then Redirect303 (''/invoice/'' @ py_str invoice_id)
                               else Redirect303 ''/''))
              else Inr (st5, Redirect303 ''/''))"
            unfolding defs c m by (simp add: v b s k)
          from s k have tot: "tex = float_sum (lines_ex (booking_lines fs st))"
            "tvat = float_sum (lines_vat (booking_lines fs st))"
            unfolding svc by (rule loop_totals)+
          have "rejected st fs = invoice_refused st fs"
            using nm ns nk by (simp add: rejected_def booking_lines_def)
          then have rej: "rejected st fs = (fgt0 tex \<and> (tvat = NaN \<or> fadd tex tvat = NaN))"
            unfolding invoice_refused_def Let_def tot [symmetric] .
          show ?thesis
          proof (cases "fgt0 tex")
            case False
            with unfolded rej show ?thesis by simp
          next
            case True
            have "isl (process_new_booking today st fs) =
                isl (insert_invoice st5 bid (next_invoice_number today st) (isoformat today)
                               tex tvat (fadd tex tvat) ''unpaid'')"
              unfolding unfolded using True
              by (cases "insert_invoice st5 bid (next_invoice_number today st) (isoformat today)
                               tex tvat (fadd tex tvat) ''unpaid''") (auto split: prod.splits)
            with True rej fgt0_not_NaN [OF True] show ?thesis
              by (simp add: insert_invoice_isl)
          qed
        qed
      qed
    qed
  qed
qed

subsection \<open>Rows added by a request, and the runs of the example\<close>

lemma added_append [simp]: "added xs (xs @ ys) = ys"
  by (simp add: added_def)

lemma tagged_rows:
  assumes "map (\<lambda>r. (f r, g r, h r)) rows = map (\<lambda>l. (tag, l)) ls"
  shows "map h rows = map snd ls" and "\<forall>r\<in>set rows. f r = tag"
    and "map (\<lambda>r. (g r, h r)) rows = ls"
proof -
  have "map (\<lambda>x. snd (snd x)) (map (\<lambda>r. (f r, g r, h r)) rows) = map (\<lambda>x. snd (snd x)) (map (\<lambda>l. (tag, l)) ls)"
    using assms by simp
  then show "map h rows = map snd ls" by (simp add: comp_def)
  have "map fst (map (\<lambda>r. (f r, g r, h r)) rows) = map fst (map (\<lambda>l. (tag, l)) ls)"
    using assms by simp
  then have "map f rows = map (\<lambda>l. tag) ls" by (simp add: comp_def)
  then have "set (map f rows) \<subseteq> {tag}" by auto
  then show "\<forall>r\<in>set rows. f r = tag" by auto
  have "map snd (map (\<lambda>r. (f r, g r, h r)) rows) = map snd (map (\<lambda>l. (tag, l)) ls)"
    using assms by simp
  then show "map (\<lambda>r. (g r, h r)) rows = ls" by (simp add: comp_def)
qed

lemma full_service_scenario:
  "float_sum [line_ex 2 (Finite 200)] = Finite 400"
  "float_sum [line_vat 2 (Finite 200) float_0_20] = Finite 80"
  "round_d 480 = Finite 480"
  by code_simp+

lemma run_full_service:
  "process_new_booking example_today example_store full_service_fields =
     Inr (store_after_booking, Redirect303 ''/invoice/1'')"
  by code_simp

lemma float_sum_Nil [simp]: "float_sum [] = Finite 0"
  by (simp add: float_sum_def)

lemma process_new_booking_invoices:
  assumes run: "process_new_booking today st fs = Inr (st', resp)"
  shows "if fgt0 (float_sum (lines_ex (booking_lines fs st)))
      then invoices st' = invoices st @
             [\<lparr>inv_id = new_invoice_id st, inv_booking_id = new_booking_id st,
               inv_number = next_invoice_number today st, inv_issue_date = isoformat today,
               inv_total_ex_vat = float_sum (lines_ex (booking_lines fs st)),
               inv_total_vat = float_sum (lines_vat (booking_lines fs st)),
               inv_total_inc = fadd (float_sum (lines_ex (booking_lines fs st)))
                                    (float_sum (lines_vat (booking_lines fs st))),
               inv_status = ''unpaid''\<rparr>] \<and>
           resp = Redirect303 (''/invoice/'' @ py_str (new_invoice_id st)) \<and>
           sequence_of st' ''invoices'' = nat (new_invoice_id st)
      else invoices st' = invoices st \<and> resp = Redirect303 ''/'' \<and>
           sequence_of st' ''invoices'' = sequence_of st ''invoices''"
  using process_new_booking_effect [OF run] by (elim exE conjE)

lemma process_new_booking_bookings:
  assumes run: "process_new_booking today st fs = Inr (st', resp)"
  shows "\<exists>cid vid. bookings st' = bookings st @
       [\<lparr>b_id = new_booking_id st, b_customer_id = cid, b_vehicle_id = vid,
         b_booking_date = booking_date_of today fs,
         b_notes = py_strip (field fs ''notes'' ''''), b_status = ''booked''\<rparr>]"
  using process_new_booking_effect [OF run] by (elim exE conjE) (intro exI)

lemma process_new_booking_items:
  assumes run: "process_new_booking today st fs = Inr (st', resp)"
  shows "\<exists>bis mis.
     booking_items st' = booking_items st @ bis \<and>
     map (\<lambda>r. (bi_booking_id r, bi_service_id r, booking_item_line r)) bis =
       map (\<lambda>l. (new_booking_id st, l)) (service_lines fs st) \<and>
     misc_items st' = misc_items st @ mis \<and>
     map (\<lambda>r. (mi_booking_id r, mi_name r, misc_item_line r)) mis =
       map (\<lambda>l. (new_booking_id st, l)) (custom_lines fs)"
  using process_new_booking_effect [OF run] by (elim exE conjE) (intro exI conjI)

lemma process_new_booking_frame:
  assumes run: "process_new_booking today st fs = Inr (st', resp)"
  shows "services st' = services st" and "settings st' = settings st"
    and "\<exists>c. customers st' = customers st @ [c]" and "\<exists>v. vehicles st' = vehicles st @ [v]"
  using process_new_booking_effect [OF run] by blast+

lemma not_rejected_runs:
  assumes "\<not> rejected st fs"
  obtains st' resp where "process_new_booking today st fs = Inr (st', resp)"
proof -
  from assms have "\<not> isl (process_new_booking today st fs)"
    by (simp add: process_new_booking_isl)
  then show ?thesis
    by (cases "process_new_booking today st fs") (auto intro: that)
qed

lemma py_str_digit:
  "py_str 1 = ''1''" "py_str 2 = ''2''" "py_str 3 = ''3''"
  by code_simp+

lemma parse_examples:
  "py_int ''1'' = Some 1" "py_float ''50'' = Some (Finite 50)" "py_float [] = None"
  by code_simp+

lemma tow_fee_scenario:
  "float_sum [line_ex 1 (Finite 50)] = Finite 50"
  "float_sum [line_vat 1 (Finite 50) float_0_20] = Finite 10"
  "round_d 60 = Finite 60"
  by code_simp+

lemma custom_lines_unfold:
  "custom_lines fs =
     [(custom_name fs i, custom_qty fs i, custom_price fs i, custom_vat fs i).
        i \<leftarrow> [1, 2, 3], custom_name fs i \<noteq> [] \<and> 0 < custom_qty fs i \<and> fgt0 (custom_price fs i)]"
  by (simp add: custom_lines_def range_1_4_def custom_kept_def)

lemma field_other_key [simp]: "k \<noteq> k' \<Longrightarrow> field (fs(k := x)) k' d = field fs k' d"
  by (simp add: field_def)

lemma readers_ignore_booking_date:
  "qty_of (fs(''booking_date'' := x)) = qty_of fs"
  "custom_name (fs(''booking_date'' := x)) = custom_name fs"
  "custom_qty (fs(''booking_date'' := x)) = custom_qty fs"
  "custom_price (fs(''booking_date'' := x)) = custom_price fs"
  "custom_vat (fs(''booking_date'' := x)) = custom_vat fs"
  by (rule ext, simp add: qty_of_def custom_name_def custom_qty_def custom_price_def
      custom_vat_def)+

lemma lines_ignore_booking_date:
  "service_lines (fs(''booking_date'' := x)) st = service_lines fs st"
  "custom_lines (fs(''booking_date'' := x)) = custom_lines fs"
  "booking_lines (fs(''booking_date'' := x)) st = booking_lines fs st"
  unfolding booking_lines_def service_lines_def custom_lines_def custom_kept_def
    readers_ignore_booking_date by (rule refl)+

lemma rejected_ignores_booking_date:
  "rejected st (fs(''booking_date'' := x)) = rejected st fs"
  by (simp add: rejected_def mileage_refused_def invoice_refused_def lines_ignore_booking_date)

lemma strptime_empty: "strptime_Y_m_d [] = None"
  by code_simp

lemma run_bad_date:
  "\<not> rejected example_store bad_date_fields"
  "py_strip (field bad_date_fields ''booking_date'' '''') = ''2024-02-30''"
  "strptime_Y_m_d ''2024-02-30'' = None"
  "isoformat example_today = ''2024-01-20''"
  by code_simp+

subsection \<open>Cancelling\<close>

lemma cancel_rows_idem: "cancel_rows n (cancel_rows n st) = cancel_rows n st"
  by (simp add: cancel_rows_def comp_def cong: map_cong)

subsection \<open>Dates: the ordinal of the date an ordinal names\<close>

lemma days_before_month_step:
  assumes "2 \<le> m"
  shows "days_before_month y m = days_before_month y (m - 1) + days_in_month y (m - 1)"
proof -
  have "[1..m - 1] = [1..m - 1 - 1] @ [m - 1]"
    using assms by (intro upto_rec2) simp
  then show ?thesis
    unfolding days_before_month_def by simp
qed

lemma days_before_month_12: "days_before_month y 12 = (if is_leap y then 335 else 334)"
proof -
  have "[1..(11::int)] = [1,2,3,4,5,6,7,8,9,10,11]"
    by (simp add: upto_rec1)
  then show ?thesis
    by (simp add: days_before_month_def days_in_month_def)
qed

lemma div_between:
  fixes x :: int
  assumes "q * k \<le> x" and "x < q * k + k" and "0 < k"
  shows "x div k = q" and "x mod k = x - q * k"
proof -
  have "x = k * q + (x - q * k)" by (simp add: algebra_simps)
  moreover have "0 \<le> x - q * k" "x - q * k < k" using assms by simp_all
  ultimately show "x div k = q"
    by (metis int_div_pos_eq)
  then show "x mod k = x - q * k"
    by (metis minus_mult_div_eq_mod mult.commute)
qed

lemma ymd2ord_ord2ymd:
  assumes "1 \<le> n0"
  shows "ymd2ord (ord2ymd n0) = n0"
proof -
  define n where "n = n0 - 1"
  define a where "a = n div 146097"
  define r1 where "r1 = n mod 146097"
  define b where "b = r1 div 36524"
  define r2 where "r2 = r1 mod 36524"
  define c where "c = r2 div 1461"
  define r3 where "r3 = r2 mod 1461"
  define d where "d = r3 div 365"
  define r4 where "r4 = r3 mod 365"
  define y where "y = a * 400 + 1 + b * 100 + c * 4 + d"
  have n: "0 \<le> n" using assms by (simp add: n_def)
  have eqs: "n = 146097 * a + r1" "r1 = 36524 * b + r2" "r2 = 1461 * c + r3" "r3 = 365 * d + r4"
    by (simp_all add: a_def r1_def b_def r2_def c_def r3_def d_def r4_def)
  have bounds: "0 \<le> r1" "r1 < 146097" "0 \<le> r2" "r2 < 36524" "0 \<le> r3" "r3 < 1461"
    "0 \<le> r4" "r4 < 365"
    by (simp_all add: r1_def r2_def r3_def r4_def)
  have nonneg: "0 \<le> a" "0 \<le> b" "0 \<le> c" "0 \<le> d"
    using n bounds by (simp_all add: a_def b_def c_def d_def pos_imp_zdiv_nonneg_iff)
  have upper: "b \<le> 4" "c \<le> 24" "d \<le> 4"
    using eqs bounds nonneg by linarith+
  have unfold: "ord2ymd n0 =
      (if d = 4 \<or> b = 4 then \<lparr>year = y - 1, month = 12, day = 31\<rparr>
       else let m = (r4 + 50) div 32; preceding = days_before_month y m
            in if preceding > r4
               then \<lparr>year = y, month = m - 1,
                     day = r4 - (preceding - days_in_month y (m - 1)) + 1\<rparr>
               else \<lparr>year = y, month = m, day = r4 - preceding + 1\<rparr>)"
    unfolding ord2ymd_def Let_def y_def d_def r4_def r3_def c_def r2_def b_def r1_def a_def n_def
    by simp
  show ?thesis
  proof (cases "d = 4 \<or> b = 4")
    case False
    then have small: "d \<le> 3" "b \<le> 3" using upper by linarith+
    have dby: "days_before_year y = 146097 * a + 36524 * b + 1461 * c + 365 * d"
    proof -
      have "(y - 1) div 4 = 100 * a + 25 * b + c"
        by (rule div_between) (use small nonneg upper in \<open>simp_all add: y_def\<close>)
      moreover have "(y - 1) div 100 = 4 * a + b"
        by (rule div_between) (use small nonneg upper in \<open>simp_all add: y_def\<close>)
      moreover have "(y - 1) div 400 = a"
        by (rule div_between) (use small nonneg upper in \<open>simp_all add: y_def\<close>)
      ultimately show ?thesis
        unfolding days_before_year_def Let_def by (simp add: y_def)
    qed
    have n0: "n0 = days_before_year y + r4 + 1"
      using eqs dby by (simp add: n_def)
    show ?thesis
    proof (cases "days_before_month y ((r4 + 50) div 32) > r4")
      case True
      have "2 \<le> (r4 + 50) div 32"
      proof (rule ccontr)
        assume "\<not> 2 \<le> (r4 + 50) div 32"
        moreover have "1 \<le> (r4 + 50) div 32"
          using bounds by (simp add: pos_imp_zdiv_pos_iff)
        ultimately have "(r4 + 50) div 32 = 1" by simp
        then have "days_before_month y ((r4 + 50) div 32) = 0"
          by (simp add: days_before_month_def)
        with True bounds show False by simp
      qed
      from days_before_month_step [OF this] True False show ?thesis
        unfolding unfold Let_def by (simp add: ymd2ord_def n0)
    next
      case nope: False
      with False show ?thesis
        unfolding unfold Let_def by (simp add: ymd2ord_def n0)
    qed
  next
    case True
    have n0: "n0 = 146097 * a + 36524 * b + 1461 * c + 365 * d + r4 + 1"
      using eqs by (simp add: n_def)
    show ?thesis
    proof (cases "b = 4")
      case b4: True
      then have z: "r2 = 0" "c = 0" "r3 = 0" "d = 0" "r4 = 0"
        using eqs bounds nonneg by linarith+
      have y1: "y - 1 = 400 * (a + 1)"
        by (simp add: y_def b4 z)
      have leap: "is_leap (y - 1)"
        unfolding y1 is_leap_def by simp
      have "(y - 1 - 1) div 4 = 100 * a + 99"
        by (rule div_between) (simp_all add: y1)
      moreover have "(y - 1 - 1) div 100 = 4 * a + 3"
        by (rule div_between) (simp_all add: y1)
      moreover have "(y - 1 - 1) div 400 = a"
        by (rule div_between) (simp_all add: y1)
      ultimately have "days_before_year (y - 1) = 146097 * a + 145731"
        unfolding days_before_year_def Let_def by (simp add: y1)
      with True leap show ?thesis
        unfolding unfold by (simp add: ymd2ord_def days_before_month_12 n0 b4 z)
    next
      case b3: False
      with True have d4: "d = 4" by simp
      have b: "b \<le> 3" using b3 upper by linarith
      have z: "r4 = 0" and c: "c \<le> 23"
        using eqs bounds nonneg d4 by linarith+
      have y1: "y - 1 = 400 * a + 100 * b + 4 * (c + 1)"
        by (simp add: y_def d4)
      have "(y - 1) mod 4 = 0" unfolding y1 by simp
      moreover have "(y - 1) mod 100 \<noteq> 0"
      proof -
        have "(y - 1) mod 100 = (y - 1) - (4 * a + b) * 100"
          by (rule div_between) (use c nonneg in \<open>simp_all add: y1\<close>)
        with nonneg show ?thesis by (simp add: y1)
      qed
      ultimately have leap: "is_leap (y - 1)"
        by (simp add: is_leap_def)
      have "(y - 1 - 1) div 4 = 100 * a + 25 * b + c"
        by (rule div_between) (use nonneg b c in \<open>simp_all add: y1\<close>)
      moreover have "(y - 1 - 1) div 100 = 4 * a + b"
        by (rule div_between) (use nonneg b c in \<open>simp_all add: y1\<close>)
      moreover have "(y - 1 - 1) div 400 = a"
        by (rule div_between) (use nonneg b c in \<open>simp_all add: y1\<close>)
      ultimately have "days_before_year (y - 1) = 146097 * a + 36524 * b + 1461 * c + 1095"
        unfolding days_before_year_def Let_def by (simp add: y1)
      with True leap show ?thesis
        unfolding unfold by (simp add: ymd2ord_def days_before_month_12 n0 d4 z)
    qed
  qed
qed

subsection \<open>The invoice page\<close>

lemma py_in_sublist: "py_in needle hay = sublist needle hay"
  by (induction hay) (auto simp: sublist_Cons_right)

lemma service_months_eq:
  "service_months names = (if \<exists>name\<in>set names. mentions_interim name then 6 else 12)"
  by (induction names) (auto simp: mentions_interim_def py_in_sublist)

lemma date_add_ordinal:
  assumes "date_add d n = Inr d'"
  shows "ymd2ord d' = ymd2ord d + n"
  using assms by (auto simp: date_add_def Let_def ymd2ord_ord2ymd split: if_splits)

lemma timedelta_Inr: "timedelta n = Inr m \<Longrightarrow> m = n"
  by (simp add: timedelta_def split: if_splits)

lemma py_int_14: "py_int ''14'' = Some 14"
  by code_simp

lemma payment_terms_days_Inr:
  assumes "payment_terms_days (get_settings st) = Inr days"
  shows "days = terms_days st" and "get_settings st ''payment_terms_days'' \<noteq> Some None"
  using assms
  by (auto simp: payment_terms_days_def terms_days_def py_int_14 split: option.splits)

lemma item_rows_names:
  "item_rows items = Inr rows \<Longrightarrow> map row_name rows = map fst items"
proof (induction items arbitrary: rows)
  case Nil
  then show ?case by simp
next
  case (Cons it items)
  obtain name qty price vat where it: "it = (name, qty, price, vat)"
    by (cases it) auto
  from Cons.prems obtain lt rest where
    "item_rows items = Inr rest" and
    "rows = \<lparr>row_name = name, row_quantity = qty, row_unit_price = price,
                  row_line_total_ex = lt, row_line_vat = fmul lt vat,
                  row_line_total_inc = fadd lt (fmul lt vat)\<rparr> # rest"
    unfolding it by (auto simp: and_then_eq_Inr Let_def)
  with Cons.IH [of rest] show ?case by (simp add: it)
qed

lemma join_names:
  "map fst
     ([(s_name s, bi_quantity bi, bi_unit_price bi, bi_vat_rate bi).
         bi \<leftarrow> booking_items st, bi_booking_id bi = booking_id,
         s \<leftarrow> services st, s_id s = bi_service_id bi] @
      [(mi_name m, mi_quantity m, mi_unit_price m, mi_vat_rate m).
         m \<leftarrow> misc_items st, mi_booking_id m = booking_id]) =
   line_item_names st booking_id"
proof -
  have 1: "map fst (concat (map (\<lambda>bi. if P bi then concat (map (\<lambda>s. if Q bi s then [(f s, g bi)] else []) ss) else []) bis)) =
      concat (map (\<lambda>bi. if P bi then concat (map (\<lambda>s. if Q bi s then [f s] else []) ss) else []) bis)"
    for P Q and f :: "service \<Rightarrow> string" and g :: "booking_item \<Rightarrow> int \<times> pyfloat \<times> pyfloat"
      and ss bis
  proof (induction bis)
    case Nil
    show ?case by simp
  next
    case (Cons bi bis)
    have "map fst (concat (map (\<lambda>s. if Q bi s then [(f s, g bi)] else []) ss)) =
        concat (map (\<lambda>s. if Q bi s then [f s] else []) ss)"
      by (induction ss) auto
    with Cons show ?case by simp
  qed
  have 2: "map fst (concat (map (\<lambda>m. if P m then [(f m, g m)] else []) ms)) =
      concat (map (\<lambda>m. if P m then [f m] else []) ms)"
    for P and f :: "misc_item \<Rightarrow> string" and g :: "misc_item \<Rightarrow> int \<times> pyfloat \<times> pyfloat" and ms
    by (induction ms) auto
  show ?thesis
    unfolding line_item_names_def map_append 1 2 ..
qed

lemma handle_invoice_page:
  assumes "handle_invoice st invoice_id = Inr (Html200 pg)"
  shows "\<exists>i issue_dt due_dt next_dt.
     i \<in> set (invoices st) \<and> inv_id i = invoice_id \<and>
     pg_invoice_number pg = inv_number i \<and> pg_issue_date pg = inv_issue_date i \<and>
     strptime_Y_m_d (inv_issue_date i) = Some issue_dt \<and>
     get_settings st ''payment_terms_days'' \<noteq> Some None \<and>
     date_add issue_dt (terms_days st) = Inr due_dt \<and>
     pg_due_date pg = strftime_Y_m_d due_dt \<and>
     date_add issue_dt
       (30 * service_months (line_item_names st (inv_booking_id i))) = Inr next_dt \<and>
     pg_next_service_date pg = strftime_Y_m_d next_dt \<and>
     map row_name (pg_items_rows pg) = line_item_names st (inv_booking_id i)"
proof -
  let ?join = "[(i, b). i \<leftarrow> invoices st, inv_id i = invoice_id,
                     b \<leftarrow> bookings st, b_id b = inv_booking_id i,
                     c \<leftarrow> customers st, c_id c = b_customer_id b,
                     v \<leftarrow> vehicles st, v_id v = b_vehicle_id b]"
  from assms have bound: "bind_int invoice_id = Inr ()"
    by (cases "bind_int invoice_id") (simp_all add: handle_invoice_def)
  show ?thesis
  proof (cases ?join)
    case Nil
    with assms bound show ?thesis
      by (simp add: handle_invoice_def)
  next
    case (Cons ib rest)
    obtain i b where ib: "ib = (i, b)" by (cases ib) auto
    have "(i, b) \<in> set ?join"
      unfolding Cons ib by simp
    then have mem: "i \<in> set (invoices st)" "inv_id i = invoice_id" "b_id b = inv_booking_id i"
      by (auto split: if_splits)
    let ?items = "[(s_name s, bi_quantity bi, bi_unit_price bi, bi_vat_rate bi).
                    bi \<leftarrow> booking_items st, bi_booking_id bi = b_id b,
                    s \<leftarrow> services st, s_id s = bi_service_id bi] @
                 [(mi_name m, mi_quantity m, mi_unit_price m, mi_vat_rate m).
                    m \<leftarrow> misc_items st, mi_booking_id m = b_id b]"
    have names: "map fst ?items = line_item_names st (inv_booking_id i)"
      unfolding join_names mem(3) ..
    have unfolded: "handle_invoice st invoice_id =
        and_then (item_rows ?items) (\<lambda>rows.
              and_then (payment_terms_days (get_settings st)) (\<lambda>days.
                case strptime_Y_m_d (inv_issue_date i) of
                  None \<Rightarrow> Inl ValueError
                | Some issue_dt \<Rightarrow>
                    and_then (timedelta days) (\<lambda>delta.
                    and_then (date_add issue_dt delta) (\<lambda>due_dt.
                      and_then (timedelta (30 * service_months (map fst ?items))) (\<lambda>delta'.
                         and_then (date_add issue_dt delta') (\<lambda>next_service_dt.
                           Inr (Html200
                             \<lparr>pg_invoice_number = inv_number i,
                              pg_issue_date = inv_issue_date i,
                              pg_due_date = strftime_Y_m_d due_dt,
                              pg_next_service_date = strftime_Y_m_d next_service_dt,
                              pg_items_rows = rows,
                              pg_total_ex = inv_total_ex_vat i,
                              pg_total_vat = inv_total_vat i,
                              pg_total_inc = inv_total_inc i\<rparr>)))))))"
      unfolding handle_invoice_def bound Cons ib Let_def by simp
    from assms [unfolded unfolded] obtain rows days issue_dt delta due_dt delta' next_dt where
      s: "item_rows ?items = Inr rows"
        "payment_terms_days (get_settings st) = Inr days"
        "strptime_Y_m_d (inv_issue_date i) = Some issue_dt"
        "timedelta days = Inr delta" "date_add issue_dt delta = Inr due_dt"
        "timedelta (30 * service_months (map fst ?items)) = Inr delta'"
        "date_add issue_dt delta' = Inr next_dt"
        "pg = \<lparr>pg_invoice_number = inv_number i,
                              pg_issue_date = inv_issue_date i,
                              pg_due_date = strftime_Y_m_d due_dt,
                              pg_next_service_date = strftime_Y_m_d next_dt,
                              pg_items_rows = rows,
                              pg_total_ex = inv_total_ex_vat i,
                              pg_total_vat = inv_total_vat i,
                              pg_total_inc = inv_total_inc i\<rparr>"
      by (auto simp: and_then_eq_Inr split: option.splits)
    have d: "delta = terms_days st"
      using timedelta_Inr [OF s(4)] payment_terms_days_Inr(1) [OF s(2)] by simp
    have d': "delta' = 30 * service_months (line_item_names st (inv_booking_id i))"
      using timedelta_Inr [OF s(6)] unfolding names .
    have rows: "map row_name rows = line_item_names st (inv_booking_id i)"
      using item_rows_names [OF s(1)] unfolding names .
    from mem s(3,5,7) payment_terms_days_Inr(2) [OF s(2)] rows
    show ?thesis
      unfolding d d' s(8)
      by (intro exI [of _ i] exI [of _ issue_dt] exI [of _ due_dt] exI [of _ next_dt]) simp
  qed
qed

lemma run_interim:
  "process_new_booking example_today example_store bad_date_fields =
     Inr (store_after_interim, Redirect303 ''/invoice/1'')"
  by code_simp

lemma run_full_service_page:
  "handle_invoice store_after_booking 1 = Inr (Html200 full_service_page)"
  by code_simp

lemma run_interim_page:
  "handle_invoice store_after_interim 1 = Inr (Html200 interim_page)"
  by code_simp

lemma terms_days_cases:
  "get_settings st ''payment_terms_days'' = None \<Longrightarrow> terms_days st = 14"
  "get_settings st ''payment_terms_days'' = Some (Some s) \<Longrightarrow>
     terms_days st = (case py_int s of Some n \<Rightarrow> n | None \<Rightarrow> 14)"
  by (simp_all add: terms_days_def)

subsection \<open>Decimal strings and invoice numbers\<close>

lemma digit_char_props:
  assumes "d < 10"
  shows "is_digit (digit_char d)" and "digit_val (digit_char d) = int d"
proof -
  from assms have m: "(48 + d) mod 256 = 48 + d" by simp
  have c: "(of_char (char_of (48 + d)) :: nat) = 48 + d"
    by (simp only: of_char_of m)
  show "is_digit (digit_char d)"
    using assms by (simp add: is_digit_def digit_char_def c)
  have "(of_char (char_of (48 + d)) :: int) = int (of_char (char_of (48 + d)) :: nat)"
    by (simp only: of_nat_of_char)
  then have "(of_char (char_of (48 + d)) :: int) = int (48 + d)"
    by (simp only: c)
  then show "digit_val (digit_char d) = int d"
    by (simp add: digit_val_def digit_char_def)
qed

lemma str_digits_all_digits: "0 \<le> n \<Longrightarrow> list_all is_digit (str_digits n)"
proof (induction n rule: str_digits.induct)
  case (1 n)
  show ?case
  proof (cases "n < 10")
    case True
    with 1(2) show ?thesis
      by (subst str_digits.simps) (simp add: digit_char_props)
  next
    case False
    with 1 have "list_all is_digit (str_digits (n div 10))" by simp
    moreover have "nat (n mod 10) < 10" by simp
    ultimately show ?thesis
      using False by (subst str_digits.simps) (simp add: digit_char_props)
  qed
qed

lemma int_of_digits_snoc: "int_of_digits (ds @ [c]) = 10 * int_of_digits ds + digit_val c"
  by (simp add: int_of_digits_def)

lemma int_of_str_digits: "0 \<le> n \<Longrightarrow> int_of_digits (str_digits n) = n"
proof (induction n rule: str_digits.induct)
  case (1 n)
  show ?case
  proof (cases "n < 10")
    case True
    with 1(2) show ?thesis
      by (subst str_digits.simps) (simp add: int_of_digits_def digit_char_props)
  next
    case False
    with 1 have "int_of_digits (str_digits (n div 10)) = n div 10" by simp
    moreover have "nat (n mod 10) < 10" by simp
    ultimately show ?thesis
      using False
      by (subst str_digits.simps) (simp add: int_of_digits_snoc digit_char_props)
  qed
qed

lemma int_of_digits_zeros: "int_of_digits (replicate k CHR ''0'' @ ds) = int_of_digits ds"
proof -
  have "foldl (\<lambda>a c. 10 * a + digit_val c) 0 (replicate k CHR ''0'') = 0"
    by (induction k) (simp_all add: digit_val_def)
  then show ?thesis by (simp add: int_of_digits_def)
qed

lemma int_of_fmt_0d: "0 \<le> n \<Longrightarrow> int_of_digits (fmt_0d w n) = n"
  by (simp add: fmt_0d_def zero_pad_def int_of_digits_zeros int_of_str_digits)

lemma fmt_0d_all_digits: "0 \<le> n \<Longrightarrow> list_all is_digit (fmt_0d w n)"
proof -
  assume "0 \<le> n"
  then have "list_all is_digit (str_digits n)" by (rule str_digits_all_digits)
  moreover have "list_all is_digit (replicate k CHR ''0'')" for k
    by (simp add: list_all_iff is_digit_def)
  ultimately show ?thesis
    using \<open>0 \<le> n\<close> by (simp add: fmt_0d_def zero_pad_def)
qed

lemma fmt_0d_inj: "0 \<le> a \<Longrightarrow> 0 \<le> b \<Longrightarrow> fmt_0d w a = fmt_0d w b \<Longrightarrow> a = b"
  by (metis int_of_fmt_0d)

lemma length_str_digits_le:
  "0 \<le> n \<Longrightarrow> n < 10 ^ w \<Longrightarrow> 0 < w \<Longrightarrow> length (str_digits n) \<le> w"
proof (induction w arbitrary: n)
  case 0
  then show ?case by simp
next
  case (Suc w)
  show ?case
  proof (cases "n < 10")
    case True
    then show ?thesis by (subst str_digits.simps) simp
  next
    case False
    then have w: "0 < w" using Suc.prems by (cases w) auto
    have "n div 10 < 10 ^ w" using Suc.prems by simp
    moreover have "0 \<le> n div 10" using Suc.prems by simp
    ultimately have "length (str_digits (n div 10)) \<le> w"
      using w by (intro Suc.IH)
    with False show ?thesis by (subst str_digits.simps) simp
  qed
qed

lemma length_fmt_0d:
  assumes "0 \<le> n" and "n < 10 ^ w" and "0 < w"
  shows "length (fmt_0d w n) = w"
  using length_str_digits_le [OF assms]  assms(1) by (simp add: fmt_0d_def zero_pad_def)

lemma length_fmt_0d_ge: "0 \<le> n \<Longrightarrow> w \<le> length (fmt_0d w n)"
  by (simp add: fmt_0d_def zero_pad_def)

lemma fmt_0d_pads: "0 \<le> n \<Longrightarrow> fmt_0d w n = replicate (w - length (py_str n)) CHR ''0'' @ py_str n"
  by (simp add: fmt_0d_def zero_pad_def py_str_def)

lemma days_in_month_le: "days_in_month y m \<le> 31"
  by (simp add: days_in_month_def)

lemma strftime_Ymd_eight:
  assumes "valid_date d" and "1000 \<le> year d"
  shows "length (strftime_Ymd d) = 8" and "list_all is_digit (strftime_Ymd d)"
proof -
  from assms have y: "0 \<le> year d" "year d < 10 ^ 4"
    and m: "0 \<le> month d" "month d < 10 ^ 2"
    and dd: "0 \<le> day d" "day d < 10 ^ 2"
    using days_in_month_le [of "year d" "month d"] by (simp_all add: valid_date_def)
  show "length (strftime_Ymd d) = 8"
    by (simp add: strftime_Ymd_def length_fmt_0d [OF y] length_fmt_0d [OF m] length_fmt_0d [OF dd])
  show "list_all is_digit (strftime_Ymd d)"
    using y m dd by (simp add: strftime_Ymd_def fmt_0d_all_digits)
qed

lemma foldr_max_Max: "foldr max xs (x::int) = Max (set (x # xs))"
proof (induction xs)
  case Nil
  show ?case by simp
next
  case (Cons a xs)
  then show ?case by (simp add: insert_commute)
qed

lemma latest_invoice_id_Max:
  "latest_invoice_id st =
     (if invoices st = [] then None else Some (Max (set (map inv_id (invoices st)))))"
proof (cases "invoices st")
  case Nil
  then show ?thesis by (simp add: latest_invoice_id_def)
next
  case (Cons i rest)
  have "foldr max (map inv_id rest) (inv_id i) = Max (set (inv_id i # map inv_id rest))"
    by (rule foldr_max_Max)
  then show ?thesis by (simp add: latest_invoice_id_def Cons)
qed

section \<open>The claims\<close>

text \<open>
  C1. When a submission creates an invoice, the rows it adds to the two item tables all
  belong to the invoice's booking, and the stored totals are the float sums of their lines
  from 0.0 in the order of the rows, services first: \<open>total_ex_vat\<close> sums
  \<open>quantity * unit_price\<close>, \<open>total_vat\<close> sums \<open>quantity * unit_price * vat_rate\<close>, and
  \<open>total_inc\<close> is the sum of the two, with no rounding to currency anywhere. A single
  line of quantity 2 at 200.0 with VAT rate 0.20 gives 400.0, 80.0 and 480.0.
\<close>

theorem invoice_totals_are_line_sums:
  assumes "process_new_booking today st fs = Inr (st', resp)"
    and "invoices st' \<noteq> invoices st"
  shows "\<exists>inv ls. invoices st' = invoices st @ [inv] \<and>
     booking_items st' = booking_items st @ added (booking_items st) (booking_items st') \<and>
     misc_items st' = misc_items st @ added (misc_items st) (misc_items st') \<and>
     (\<forall>r\<in>set (added (booking_items st) (booking_items st')). bi_booking_id r = inv_booking_id inv) \<and>
     (\<forall>r\<in>set (added (misc_items st) (misc_items st')). mi_booking_id r = inv_booking_id inv) \<and>
     ls = map booking_item_line (added (booking_items st) (booking_items st')) @
          map misc_item_line (added (misc_items st) (misc_items st')) \<and>
     inv_total_ex_vat inv = float_sum (lines_ex ls) \<and>
     inv_total_vat inv = float_sum (lines_vat ls) \<and>
     inv_total_inc inv = fadd (inv_total_ex_vat inv) (inv_total_vat inv) \<and>
     (ls = [(2, Finite 200, float_0_20)] \<longrightarrow>
        inv_total_ex_vat inv = Finite 400 \<and> inv_total_vat inv = Finite 80 \<and>
        inv_total_inc inv = Finite 480)"
proof -
  from process_new_booking_effect [OF assms(1)] obtain c v bis mis where
    e: "booking_items st' = booking_items st @ bis"
      "map (\<lambda>r. (bi_booking_id r, bi_service_id r, booking_item_line r)) bis =
         map (\<lambda>l. (new_booking_id st, l)) (service_lines fs st)"
      "misc_items st' = misc_items st @ mis"
      "map (\<lambda>r. (mi_booking_id r, mi_name r, misc_item_line r)) mis =
         map (\<lambda>l. (new_booking_id st, l)) (custom_lines fs)"
    and i: "if fgt0 (float_sum (lines_ex (booking_lines fs st)))
      then invoices st' = invoices st @
             [\<lparr>inv_id = new_invoice_id st, inv_booking_id = new_booking_id st,
               inv_number = next_invoice_number today st, inv_issue_date = isoformat today,
               inv_total_ex_vat = float_sum (lines_ex (booking_lines fs st)),
               inv_total_vat = float_sum (lines_vat (booking_lines fs st)),
               inv_total_inc = fadd (float_sum (lines_ex (booking_lines fs st)))
                                    (float_sum (lines_vat (booking_lines fs st))),
               inv_status = ''unpaid''\<rparr>] \<and>
           resp = Redirect303 (''/invoice/'' @ py_str (new_invoice_id st)) \<and>
           sequence_of st' ''invoices'' = nat (new_invoice_id st)
      else invoices st' = invoices st \<and> resp = Redirect303 ''/'' \<and>
           sequence_of st' ''invoices'' = sequence_of st ''invoices''"
    by blast
  let ?inv = "\<lparr>inv_id = new_invoice_id st, inv_booking_id = new_booking_id st,
               inv_number = next_invoice_number today st, inv_issue_date = isoformat today,
               inv_total_ex_vat = float_sum (lines_ex (booking_lines fs st)),
               inv_total_vat = float_sum (lines_vat (booking_lines fs st)),
               inv_total_inc = fadd (float_sum (lines_ex (booking_lines fs st)))
                                    (float_sum (lines_vat (booking_lines fs st))),
               inv_status = ''unpaid''\<rparr>"
  from i assms(2) have inv: "invoices st' = invoices st @ [?inv]"
    by (simp split: if_splits)
  have ls: "map booking_item_line bis @ map misc_item_line mis = booking_lines fs st"
    unfolding booking_lines_def using tagged_rows(1) [OF e(2)] tagged_rows(1) [OF e(4)] by simp
  have ids: "\<forall>r\<in>set bis. bi_booking_id r = new_booking_id st"
    "\<forall>r\<in>set mis. mi_booking_id r = new_booking_id st"
    using tagged_rows(2) [OF e(2)] tagged_rows(2) [OF e(4)] by simp_all
  show ?thesis
    apply (rule exI [of _ ?inv])
    apply (rule exI [of _ "booking_lines fs st"])
    using inv ids
    by (auto simp: e(1) e(3) ls full_service_scenario)
qed

theorem invoice_totals_are_line_sums_witness:
  "process_new_booking example_today example_store full_service_fields =
     Inr (store_after_booking, Redirect303 ''/invoice/1'') \<and>
   invoices store_after_booking \<noteq> invoices example_store \<and>
   (\<exists>inv. invoices store_after_booking = invoices example_store @ [inv] \<and>
      inv_total_ex_vat inv = Finite 400 \<and> inv_total_vat inv = Finite 80 \<and>
      inv_total_inc inv = Finite 480)"
proof -
  have ne: "invoices store_after_booking \<noteq> invoices example_store"
    by (simp add: store_after_booking_def example_store_def)
  have one: "map booking_item_line (added (booking_items example_store) (booking_items store_after_booking)) @
          map misc_item_line (added (misc_items example_store) (misc_items store_after_booking)) =
          [(2, Finite 200, float_0_20)]"
    by (simp add: store_after_booking_def example_store_def added_def booking_item_line_def)
  from invoice_totals_are_line_sums [OF run_full_service ne] one
  have "\<exists>inv. invoices store_after_booking = invoices example_store @ [inv] \<and>
      inv_total_ex_vat inv = Finite 400 \<and> inv_total_vat inv = Finite 80 \<and>
      inv_total_inc inv = Finite 480"
    by metis
  with run_full_service ne show ?thesis by (intro conjI)
qed















text \<open>
  C7. On every rendered invoice page, \<open>next_service_date\<close> is the date 30 * 6 = 180 days
  after the issue date when the name of a line item of the invoice's booking, the service
  of a booking item or a custom item, contains "interim" in any case of its letters, and
  30 * 12 = 360 days after it otherwise.
\<close>

theorem next_service_date_by_interim:
  assumes "handle_invoice st invoice_id = Inr (Html200 pg)"
  shows "\<exists>i issue_dt next_dt days.
     i \<in> set (invoices st) \<and> inv_id i = invoice_id \<and> pg_issue_date pg = inv_issue_date i \<and>
     strptime_Y_m_d (pg_issue_date pg) = Some issue_dt \<and>
     days = (if \<exists>name\<in>set (line_item_names st (inv_booking_id i)). mentions_interim name
             then 30 * 6 else 30 * 12) \<and>
     pg_next_service_date pg = strftime_Y_m_d next_dt \<and>
     date_add issue_dt days = Inr next_dt \<and>
     ymd2ord next_dt = ymd2ord issue_dt + days"
proof -
  from handle_invoice_page [OF assms] obtain i issue_dt next_dt where
    p: "i \<in> set (invoices st)" "inv_id i = invoice_id" "pg_issue_date pg = inv_issue_date i"
      "strptime_Y_m_d (inv_issue_date i) = Some issue_dt"
      "date_add issue_dt
         (30 * service_months (line_item_names st (inv_booking_id i))) = Inr next_dt"
      "pg_next_service_date pg = strftime_Y_m_d next_dt"
    by blast
  have m: "30 * service_months (line_item_names st (inv_booking_id i)) =
      (if \<exists>name\<in>set (line_item_names st (inv_booking_id i)). mentions_interim name
       then 30 * 6 else 30 * 12)"
    by (simp add: service_months_eq)
  from p date_add_ordinal [OF p(5)] show ?thesis
    unfolding m
    by (intro exI [of _ i] exI [of _ issue_dt] exI [of _ next_dt]
        exI [of _ "if \<exists>name\<in>set (line_item_names st (inv_booking_id i)). mentions_interim name
       then 30 * 6 else 30 * 12"]) simp
qed

theorem next_service_date_by_interim_witness:
  "handle_invoice store_after_interim 1 = Inr (Html200 interim_page) \<and>
   line_item_names store_after_interim 1 = [''Interim Service''] \<and>
   mentions_interim ''Interim Service'' \<and>
   pg_next_service_date interim_page = ''2024-07-18'' \<and>
   (\<exists>issue_dt next_dt.
      strptime_Y_m_d ''2024-01-20'' = Some issue_dt \<and>
      ''2024-07-18'' = strftime_Y_m_d next_dt \<and>
      ymd2ord next_dt = ymd2ord issue_dt + 180)"
proof -
  have n: "line_item_names store_after_interim 1 = [''Interim Service'']"
    by code_simp
  have m: "mentions_interim ''Interim Service''"
    unfolding mentions_interim_def py_in_sublist [symmetric] by code_simp
  have d: "pg_next_service_date interim_page = ''2024-07-18''"
    "pg_issue_date interim_page = ''2024-01-20''"
    by (simp_all add: interim_page_def)
  from next_service_date_by_interim [OF run_interim_page] obtain i issue_dt next_dt days where
    p: "i \<in> set (invoices store_after_interim)" "inv_id i = 1"
      "strptime_Y_m_d (pg_issue_date interim_page) = Some issue_dt"
      "days = (if \<exists>name\<in>set (line_item_names store_after_interim (inv_booking_id i)).
                 mentions_interim name then 30 * 6 else 30 * 12)"
      "pg_next_service_date interim_page = strftime_Y_m_d next_dt"
      "ymd2ord next_dt = ymd2ord issue_dt + days"
    by blast
  from p(1) have "inv_booking_id i = 1"
    by (simp add: store_after_interim_def)
  with p(4) n m have "days = 180" by simp
  with p(3,5,6) have "\<exists>issue_dt next_dt.
      strptime_Y_m_d ''2024-01-20'' = Some issue_dt \<and>
      ''2024-07-18'' = strftime_Y_m_d next_dt \<and>
      ymd2ord next_dt = ymd2ord issue_dt + 180"
    unfolding d by (intro exI [of _ issue_dt] exI [of _ next_dt]) simp
  with run_interim_page n m d(1) show ?thesis by (intro conjI)
qed

text \<open>
  C4 fails as stated: the code writes a hyphen between the date and the sequence. With no
  invoice in the store on 20 January 2024 the number is \<^verbatim>\<open>INV20240120-001\<close>, not
  \<^verbatim>\<open>INV20240120001\<close>.
\<close>

theorem invoice_number_hyphen_counterexample:
  "next_invoice_number example_today example_store = ''INV20240120-001'' \<and>
   next_invoice_number example_today example_store \<noteq> ''INV20240120001''"
  by code_simp

text \<open>
  C4, as amended. Every generated invoice number is \<^verbatim>\<open>INV\<close>, the current date as
  \<^verbatim>\<open>%Y%m%d\<close> (eight digits for a date from the year 1000 on), a hyphen, and \<open>next_id\<close>
  padded with zeros to at least three digits, where \<open>next_id\<close> is the greatest invoice
  id of the store plus 1, or 1 when the store has no invoice.
\<close>

theorem invoice_number_format:
  "next_invoice_number today st =
     ''INV'' @ strftime_Ymd today @ ''-'' @
       fmt_0d 3 (if invoices st = [] then 1 else Max (set (map inv_id (invoices st))) + 1) \<and>
   strftime_Ymd today = fmt_0d 4 (year today) @ fmt_0d 2 (month today) @ fmt_0d 2 (day today) \<and>
   (valid_date today \<and> 1000 \<le> year today \<longrightarrow>
      length (strftime_Ymd today) = 8 \<and> list_all is_digit (strftime_Ymd today)) \<and>
   (\<forall>n\<ge>0. fmt_0d 3 n = replicate (3 - length (py_str n)) CHR ''0'' @ py_str n \<and>
           list_all is_digit (fmt_0d 3 n) \<and> 3 \<le> length (fmt_0d 3 n) \<and>
           (n < 1000 \<longrightarrow> length (fmt_0d 3 n) = 3))"
proof (intro conjI impI allI)
  show "next_invoice_number today st =
     ''INV'' @ strftime_Ymd today @ ''-'' @
       fmt_0d 3 (if invoices st = [] then 1 else Max (set (map inv_id (invoices st))) + 1)"
    by (simp add: next_invoice_number_def latest_invoice_id_Max Let_def)
  show "strftime_Ymd today = fmt_0d 4 (year today) @ fmt_0d 2 (month today) @ fmt_0d 2 (day today)"
    by (simp add: strftime_Ymd_def)
  show "length (strftime_Ymd today) = 8" if "valid_date today \<and> 1000 \<le> year today"
    using that strftime_Ymd_eight(1) by blast
  show "list_all is_digit (strftime_Ymd today)" if "valid_date today \<and> 1000 \<le> year today"
    using that strftime_Ymd_eight(2) by blast
  show "fmt_0d 3 n = replicate (3 - length (py_str n)) CHR ''0'' @ py_str n" if "0 \<le> n" for n
    using that by (rule fmt_0d_pads)
  show "list_all is_digit (fmt_0d 3 n)" if "0 \<le> n" for n
    using that by (rule fmt_0d_all_digits)
  show "3 \<le> length (fmt_0d 3 n)" if "0 \<le> n" for n
    using that by (rule length_fmt_0d_ge)
  show "length (fmt_0d 3 n) = 3" if "0 \<le> n" and "n < 1000" for n
    using that by (intro length_fmt_0d) simp_all
qed

theorem invoice_number_format_witness:
  "valid_date example_today \<and> 1000 \<le> year example_today \<and>
   invoices store_after_booking \<noteq> [] \<and>
   Max (set (map inv_id (invoices store_after_booking))) + 1 = 2 \<and>
   next_invoice_number example_today store_after_booking = ''INV20240120-002'' \<and>
   length (strftime_Ymd example_today) = 8"
proof -
  have v: "valid_date example_today \<and> 1000 \<le> year example_today"
    by code_simp
  have n: "invoices store_after_booking \<noteq> []"
    "Max (set (map inv_id (invoices store_after_booking))) + 1 = 2"
    by (simp_all add: store_after_booking_def)
  have s: "''INV'' @ strftime_Ymd example_today @ ''-'' @ fmt_0d 3 2 = ''INV20240120-002''"
    by code_simp
  note f = invoice_number_format [of example_today store_after_booking]
  from conjunct1 [OF f] n s
  have a: "next_invoice_number example_today store_after_booking = ''INV20240120-002''"
    by (simp only: if_False)
  from conjunct1 [OF conjunct2 [OF conjunct2 [OF f]]] v
  have b: "length (strftime_Ymd example_today) = 8"
    by blast
  from v n a b show ?thesis by blast
qed

end
